theory Spec2Isabelle
  imports Complex_Main "HOL-Library.Word"
begin

section \<open>Data model of main.go\<close>

text \<open>
  Instants (\<^verbatim>\<open>time.Time\<close> values obtained from \<^verbatim>\<open>time.Now()\<close> and the timestamps of the
  state file) are nanoseconds since the Unix epoch on one time line; \<^verbatim>\<open>Before\<close> compares
  instants. \<^verbatim>\<open>AddDate(0, 0, d)\<close> is modelled for a location without zone transitions (UTC,
  the location of the container image), where a calendar day is 24 hours. It goes through
  \<^verbatim>\<open>time.Date\<close>, which counts the seconds since the year 1 in 64 bits and wraps around: so
  does \<open>AddDate\<close>, and it is the plain sum only while that count fits (\<open>AddDate_exact\<close>).
\<close>

type_synonym time = int

definition Hour :: int where
  "Hour = 3600000000000"

definition Before :: "time \<Rightarrow> time \<Rightarrow> bool" where
  "Before t u = (t < u)"

definition wrap64 :: "int \<Rightarrow> int" where
  \<comment> \<open>a value as a signed 64-bit integer holds it\<close>
  "wrap64 x = sint (word_of_int x :: 64 word)"

definition AddDate :: "time \<Rightarrow> int \<Rightarrow> time" where
  \<comment> \<open>\<^verbatim>\<open>t.AddDate(0, 0, days)\<close>; 62135596800 seconds lie between the year 1 and 1970\<close>
  "AddDate t days =
     (wrap64 (t div 1000000000 + 62135596800 + days * 86400) - 62135596800) * 1000000000
       + t mod 1000000000"

definition Format_RFC3339 :: "time \<Rightarrow> time" where
  \<comment> \<open>\<^verbatim>\<open>t.Format(time.RFC3339)\<close> stands for the instant it denotes: \<open>t\<close> cut to the second\<close>
  "Format_RFC3339 t = t - t mod 1000000000"

definition Duration_mul :: "int \<Rightarrow> int \<Rightarrow> int" where
  \<comment> \<open>the product of two \<^verbatim>\<open>time.Duration\<close> values: signed 64-bit, wrapping\<close>
  "Duration_mul a b = sint ((word_of_int a :: 64 word) * word_of_int b)"

text \<open>
  \<^verbatim>\<open>PostedAt\<close> is decoded from an RFC 3339 string and is only ever formatted, so it is kept
  as the calendar reading in its own zone: the fields the string carries.
\<close>

record Timestamp =
  t_year :: nat
  t_month :: nat
  t_day :: nat
  t_hour :: nat
  t_minute :: nat
  t_second :: nat
  t_offset :: int

datatype error = Err string

record MercuryAccount =
  acct_ID :: string
  acct_Name :: string

text \<open>
  \<^verbatim>\<open>Amount\<close> is a \<^verbatim>\<open>float64\<close> decoded from JSON, hence finite: a rational number. The
  code only compares it with zero and takes its absolute value, both exact on finite
  floats.
\<close>

record MercuryTransaction =
  tx_ID :: string
  tx_Amount :: rat
  BankDescription :: string
  PostedAt :: Timestamp

record InvoiceNinjaBankTX =
  Amount :: rat
  Date :: string
  Description :: string
  BankIntegrationID :: string
  BaseType :: string

record Config =
  MercuryAPIKey :: string
  InvoiceNinjaToken :: string
  InvoiceNinjaURL :: string
  BankProvider :: string
  SyncIntervalHours :: int
  SyncStartDaysAgo :: int
  LogLevel :: string
  stateFilePath :: string
  bankIntegrationID :: string
  mercuryAccounts :: "MercuryAccount list"

record SyncState =
  ProcessedTxIDs :: "string \<rightharpoonup> time"

subsection \<open>The world outside the process\<close>

text \<open>
  What the cycle does towards the two services is recorded: a fetch of one account's
  transactions with its \<^verbatim>\<open>start\<close> parameter and its outcome, and a call of
  \<^verbatim>\<open>createInvoiceNinjaTransaction\<close>, an attempt to post, with the transaction identifier it
  is made for, the body it builds and what it returns. The bodies of the POST requests
  that are handed to the transport are recorded apart, in \<open>sent\<close>.
\<close>

datatype call =
  Fetch MercuryAccount time "error + MercuryTransaction list"
| Post string InvoiceNinjaBankTX "error option"

datatype level = Debug | Info | Error

datatype attr = AStr string | ANat nat | AErr error | ATime time | ARat rat

datatype log_entry = Log level string "(string \<times> attr) list"

datatype file_content = Absent | Snapshot "string \<rightharpoonup> time" | Damaged

record world =
  clock :: time
  calls :: "call list"
  sent :: "InvoiceNinjaBankTX list"
  logs :: "log_entry list"
  stateFile :: file_content

text \<open>
  The answers of the two remote services, of the file system and the time each blocking
  call takes are inputs: functions of everything that happened so far. An outcome of
  \<open>fetchOutcome\<close> stands for the whole exchange of a GET (building the request without a
  body, the transport with its retries, the status check and the decoding of the answer);
  an outcome of \<open>postOutcome\<close> stands for \<^verbatim>\<open>submitRequest\<close> on a POST request once it is
  built. A failed write leaves the file as \<open>writeOutcome\<close> says.
\<close>

record env =
  fetchOutcome :: "world \<Rightarrow> MercuryAccount \<Rightarrow> time \<Rightarrow> error + MercuryTransaction list"
  postOutcome :: "world \<Rightarrow> InvoiceNinjaBankTX \<Rightarrow> error option"
  mkdirOutcome :: "world \<Rightarrow> error option"
  writeOutcome :: "world \<Rightarrow> (error \<times> file_content) option"
  elapsed :: "world \<Rightarrow> int"

definition slog :: "level \<Rightarrow> string \<Rightarrow> (string \<times> attr) list \<Rightarrow> world \<Rightarrow> world" where
  "slog l msg attrs w = w\<lparr>logs := logs w @ [Log l msg attrs]\<rparr>"

definition called :: "env \<Rightarrow> call \<Rightarrow> world \<Rightarrow> world" where
  \<comment> \<open>a blocking call returns: time has passed and the call is on record\<close>
  "called e c w = w\<lparr>clock := clock w + elapsed e w, calls := calls w @ [c]\<rparr>"

section \<open>The operations\<close>

subsection \<open>Formatting a date\<close>

definition digit :: "nat \<Rightarrow> char" where
  "digit n = ''0123456789'' ! (n mod 10)"

function utoa :: "nat \<Rightarrow> string" where
  "utoa n = (if n < 10 then [digit n] else utoa (n div 10) @ [digit n])"
  by pat_completeness auto
termination
  by (relation "measure (\<lambda>n. n)") auto

definition appendInt :: "nat \<Rightarrow> nat \<Rightarrow> string" where
  \<comment> \<open>decimal, padded with zeros to the width\<close>
  "appendInt x width = replicate (width - length (utoa x)) CHR ''0'' @ utoa x"

definition Format_2006_01_02 :: "Timestamp \<Rightarrow> string" where
  \<comment> \<open>\<^verbatim>\<open>t.Format("2006-01-02")\<close>\<close>
  "Format_2006_01_02 t =
     appendInt (t_year t) 4 @ ''-'' @ appendInt (t_month t) 2 @ ''-'' @ appendInt (t_day t) 2"

subsection \<open>Building a request\<close>

text \<open>
  \<^verbatim>\<open>getRequest\<close> (lines 170 to 188) marshals a body that is not nil into a variable of its
  own \<^verbatim>\<open>if\<close> block (\<^verbatim>\<open>body, err := json.Marshal(body)\<close>), so the bytes are gone at the end of
  the block and \<^verbatim>\<open>rh.NewRequest\<close> gets the parameter, still the value the caller passed: nil
  or the struct. Marshalling the struct fails only for an amount that is not finite, which
  an absolute value of a decoded amount is not. \<^verbatim>\<open>rh.NewRequest\<close> of go-retryablehttp first
  reads the body through a switch on its type (nil, a byte slice, a buffer, a reader, a
  function returning a reader) and refuses any other type, naming it.
\<close>

datatype rawBody = RawNil | RawStruct InvoiceNinjaBankTX

definition rh_NewRequest :: "rawBody \<Rightarrow> error option" where
  "rh_NewRequest rawBody =
     (case rawBody of
        RawNil \<Rightarrow> None
      | RawStruct b \<Rightarrow> Some (Err ''cannot handle type main.InvoiceNinjaBankTX''))"

definition getRequest :: "string \<Rightarrow> string \<Rightarrow> rawBody \<Rightarrow> error option" where
  \<comment> \<open>the error it returns, none when the request is built\<close>
  "getRequest method url body =
     (case rh_NewRequest body of
        Some (Err msg) \<Rightarrow>
          Some (Err (''error creating request: '' @ method @ '' '' @ url @ '': '' @ msg))
      | None \<Rightarrow> None)"

definition getInvoiceNinjaRequest :: "Config \<Rightarrow> string \<Rightarrow> string \<Rightarrow> rawBody \<Rightarrow> error option" where
  "getInvoiceNinjaRequest config method url body =
     getRequest method (InvoiceNinjaURL config @ ''/api/v1'' @ url) body"

subsection \<open>Posting one transaction\<close>

definition bankTX :: "Config \<Rightarrow> MercuryTransaction \<Rightarrow> InvoiceNinjaBankTX" where
  \<comment> \<open>the body \<^verbatim>\<open>createInvoiceNinjaTransaction\<close> builds\<close>
  "bankTX config tx =
     (let baseType = (if tx_Amount tx > 0 then ''CREDIT'' else ''DEBIT'') in
      \<lparr>Amount = \<bar>tx_Amount tx\<bar>,
       Date = Format_2006_01_02 (PostedAt tx),
       Description = BankDescription tx,
       BankIntegrationID = bankIntegrationID config,
       BaseType = baseType\<rparr>)"

definition createInvoiceNinjaTransaction ::
  "env \<Rightarrow> Config \<Rightarrow> MercuryTransaction \<Rightarrow> world \<Rightarrow> error option \<times> world" where
  "createInvoiceNinjaTransaction e config tx w =
     (let w1 = slog Debug ''Creating bank transaction in InvoiceNinja''
                 [(''amount'', ARat (tx_Amount tx)), (''description'', AStr (BankDescription tx))] w;
          body = bankTX config tx
      in case getInvoiceNinjaRequest config ''POST'' ''/bank_transactions'' (RawStruct body) of
           Some err \<Rightarrow> (Some err, w1\<lparr>calls := calls w1 @ [Post (tx_ID tx) body (Some err)]\<rparr>)
         | None \<Rightarrow>
             (let r = postOutcome e w1 body
              in (r, (called e (Post (tx_ID tx) body r) w1)\<lparr>sent := sent w1 @ [body]\<rparr>)))"

subsection \<open>Fetching one account\<close>

definition fetchMercuryTransactions ::
  "env \<Rightarrow> Config \<Rightarrow> MercuryAccount \<Rightarrow> world \<Rightarrow> (error + MercuryTransaction list) \<times> world" where
  "fetchMercuryTransactions e config acct w =
     (let start = Format_RFC3339 (AddDate (clock w) (- SyncStartDaysAgo config));
          w1 = slog Debug ''Fetching Mercury transactions''
                 [(''account'', AStr (acct_Name acct)), (''since'', ATime start)] w;
          r = fetchOutcome e w1 acct start
      in (r, called e (Fetch acct start r) w1))"

subsection \<open>Pruning\<close>

text \<open>
  The loop of lines 292 to 296 visits the entries of the map in an order Go leaves open,
  and deletes the entry it is at when its timestamp is before the cutoff. \<open>pruneLoop\<close>
  is that loop for a given order of visit; an identifier no longer in the map is not
  visited.
\<close>

fun pruneLoop :: "string list \<Rightarrow> time \<Rightarrow> (string \<rightharpoonup> time) \<Rightarrow> (string \<rightharpoonup> time)" where
  "pruneLoop [] cutoffTime m = m"
| "pruneLoop (txid # ids) cutoffTime m =
     (case m txid of
        None \<Rightarrow> pruneLoop ids cutoffTime m
      | Some timestamp \<Rightarrow>
          if Before timestamp cutoffTime then pruneLoop ids cutoffTime (m(txid := None))
          else pruneLoop ids cutoffTime m)"

text \<open>The same loop without the order, which it does not depend on (\<open>pruneLoop_prune\<close>).\<close>

definition prune :: "time \<Rightarrow> (string \<rightharpoonup> time) \<Rightarrow> (string \<rightharpoonup> time)" where
  "prune cutoffTime m =
     (\<lambda>txid. case m txid of
              None \<Rightarrow> None
            | Some timestamp \<Rightarrow> if Before timestamp cutoffTime then None else Some timestamp)"

subsection \<open>One reconciliation cycle\<close>

text \<open>
  The state is mutated in place, so every result carries it: also when the cycle
  returns an error, the caller holds the state as the cycle left it. The inner loop
  counts in \<open>processed\<close> and \<open>totalProcessed\<close>.
\<close>

fun syncTxs ::
  "env \<Rightarrow> Config \<Rightarrow> MercuryTransaction list \<Rightarrow> SyncState \<Rightarrow> world \<Rightarrow> nat \<Rightarrow> nat \<Rightarrow>
     error option \<times> SyncState \<times> world \<times> nat \<times> nat" where
  "syncTxs e config [] state w processed totalProcessed =
     (None, state, w, processed, totalProcessed)"
| "syncTxs e config (tx # txs) state w processed totalProcessed =
     (if ProcessedTxIDs state (tx_ID tx) \<noteq> None
      then syncTxs e config txs state
             (slog Debug ''Skipping already processed transaction'' [(''id'', AStr (tx_ID tx))] w)
             processed totalProcessed
      else
        (case createInvoiceNinjaTransaction e config tx w of
           (Some err, w1) \<Rightarrow> (Some err, state, w1, processed, totalProcessed)
         | (None, w1) \<Rightarrow>
             syncTxs e config txs
               (state\<lparr>ProcessedTxIDs := (ProcessedTxIDs state)(tx_ID tx \<mapsto> clock w1)\<rparr>)
               w1 (processed + 1) (totalProcessed + 1)))"

fun syncAccounts ::
  "env \<Rightarrow> Config \<Rightarrow> MercuryAccount list \<Rightarrow> SyncState \<Rightarrow> world \<Rightarrow> nat \<Rightarrow>
     error option \<times> SyncState \<times> world \<times> nat" where
  "syncAccounts e config [] state w totalProcessed = (None, state, w, totalProcessed)"
| "syncAccounts e config (acct # accts) state w totalProcessed =
     (case fetchMercuryTransactions e config acct
             (slog Debug ''Processing account'' [(''name'', AStr (acct_Name acct))] w) of
        (Inl err, w1) \<Rightarrow>
          syncAccounts e config accts state
            (slog Error ''Error fetching transactions''
               [(''account'', AStr (acct_Name acct)), (''error'', AErr err)] w1)
            totalProcessed
      | (Inr txs, w1) \<Rightarrow>
          if length txs = 0 then syncAccounts e config accts state w1 totalProcessed
          else
            (case syncTxs e config txs state
                    (slog Debug ''Processing transactions''
                       [(''account'', AStr (acct_Name acct)), (''count'', ANat (length txs))] w1)
                    0 totalProcessed of
               (Some err, state1, w2, processed, total1) \<Rightarrow> (Some err, state1, w2, total1)
             | (None, state1, w2, processed, total1) \<Rightarrow>
                 syncAccounts e config accts state1
                   (if processed > 0
                    then slog Info ''Account sync completed''
                           [(''account'', AStr (acct_Name acct)),
                            (''transactions'', ANat processed)] w2
                    else w2)
                   total1))"

definition syncTransactions ::
  "env \<Rightarrow> Config \<Rightarrow> SyncState \<Rightarrow> world \<Rightarrow> error option \<times> SyncState \<times> world" where
  "syncTransactions e config state w =
     (let cutoffTime = AddDate (clock w) (- 7);
          state1 = state\<lparr>ProcessedTxIDs := prune cutoffTime (ProcessedTxIDs state)\<rparr>
      in case syncAccounts e config (mercuryAccounts config) state1 w 0 of
           (Some err, state2, w1, totalProcessed) \<Rightarrow> (Some err, state2, w1)
         | (None, state2, w1, totalProcessed) \<Rightarrow>
             (None, state2,
              slog Debug ''Sync completed'' [(''transactions'', ANat totalProcessed)] w1))"

subsection \<open>Saving the state, and the main loop\<close>

text \<open>
  \<^verbatim>\<open>json.Marshal\<close> of a map of timestamps fails only for a year outside 0 to 9999, which
  neither \<^verbatim>\<open>time.Now()\<close> nor a decoded state file yields: the model has no such branch.
  \<^verbatim>\<open>os.WriteFile\<close> truncates the file it then writes.
\<close>

definition saveState :: "env \<Rightarrow> SyncState \<Rightarrow> world \<Rightarrow> error option \<times> world" where
  "saveState e state w =
     (case mkdirOutcome e w of
        Some (Err msg) \<Rightarrow>
          (Some (Err (''error creating state directory: '' @ msg)),
           w\<lparr>clock := clock w + elapsed e w\<rparr>)
      | None \<Rightarrow>
          (case writeOutcome e w of
             Some (Err msg, f) \<Rightarrow>
               (Some (Err (''error writing state file: '' @ msg)),
                w\<lparr>clock := clock w + elapsed e w, stateFile := f\<rparr>)
           | None \<Rightarrow>
               (None, w\<lparr>clock := clock w + elapsed e w,
                         stateFile := Snapshot (ProcessedTxIDs state)\<rparr>)))"

definition runCycle :: "env \<Rightarrow> Config \<Rightarrow> SyncState \<Rightarrow> world \<Rightarrow> SyncState \<times> world" where
  \<comment> \<open>lines 390 to 394: the cycle, and the save when the cycle returned no error\<close>
  "runCycle e config state w =
     (case syncTransactions e config state w of
        (Some err, state1, w1) \<Rightarrow> (state1, slog Error ''Error in sync'' [(''error'', AErr err)] w1)
      | (None, state1, w1) \<Rightarrow>
          (case saveState e state1 w1 of
             (Some err, w2) \<Rightarrow>
               (state1, slog Error ''Error saving state'' [(''error'', AErr err)] w2)
           | (None, w2) \<Rightarrow> (state1, w2)))"

definition Sleep :: "int \<Rightarrow> world \<Rightarrow> world" where
  \<comment> \<open>returns at once for a duration that is not positive\<close>
  "Sleep d w = (if d \<le> 0 then w else w\<lparr>clock := clock w + d\<rparr>)"

definition mainIteration :: "env \<Rightarrow> Config \<Rightarrow> SyncState \<Rightarrow> world \<Rightarrow> SyncState \<times> world" where
  \<comment> \<open>the body of the loop of lines 389 to 399\<close>
  "mainIteration e config state w =
     (case runCycle e config state w of
        (state1, w1) \<Rightarrow>
          (let nextSync = clock w1 + Duration_mul (SyncIntervalHours config) Hour;
               w2 = slog Debug ''Waiting for next sync'' [(''next_sync'', ATime nextSync)] w1
           in (state1, Sleep (nextSync - clock w2) w2)))"

text \<open>The loop never ends; \<open>mainLoop n\<close> is its first \<open>n\<close> iterations.\<close>

fun mainLoop :: "env \<Rightarrow> Config \<Rightarrow> nat \<Rightarrow> SyncState \<Rightarrow> world \<Rightarrow> SyncState \<times> world" where
  "mainLoop e config 0 state w = (state, w)"
| "mainLoop e config (Suc n) state w =
     (case mainIteration e config state w of
        (state1, w1) \<Rightarrow> mainLoop e config n state1 w1)"

subsection \<open>Loading the configuration\<close>

text \<open>
  The decoded configuration file: the keys it has. \<^verbatim>\<open>json.Unmarshal\<close> writes the keys
  that are present over the defaults and leaves the other fields alone. Whether a string
  is a request URI is \<^verbatim>\<open>url.ParseRequestURI\<close>'s to say, a parameter here; the state file's
  path is joined for a directory written without a trailing separator.
\<close>

record ConfigJSON =
  j_mercuryAPIKey :: "string option"
  j_invoiceNinjaToken :: "string option"
  j_invoiceNinjaURL :: "string option"
  j_invoiceNinjaBankProvider :: "string option"
  j_syncIntervalHours :: "int option"
  j_syncStartDaysAgo :: "int option"
  j_logLevel :: "string option"

datatype config_file = Unreadable string | Malformed string | Decoded ConfigJSON

definition override :: "'a \<Rightarrow> 'a option \<Rightarrow> 'a" where
  "override d v = (case v of None \<Rightarrow> d | Some x \<Rightarrow> x)"

definition filepath_Join :: "string \<Rightarrow> string \<Rightarrow> string" where
  "filepath_Join dir name = (if dir = [] then name else dir @ ''/'' @ name)"

definition loadConfig ::
  "(string \<Rightarrow> string option) \<Rightarrow> config_file \<Rightarrow> string \<Rightarrow> string \<Rightarrow> error + Config" where
  "loadConfig ParseRequestURI configFile dataDir invoiceNinjaURL =
     (case configFile of
        Unreadable err \<Rightarrow> Inl (Err (''error reading config file: '' @ err))
      | Malformed err \<Rightarrow> Inl (Err (''error parsing config file: '' @ err))
      | Decoded j \<Rightarrow>
          (let config =
                 \<lparr>MercuryAPIKey = override [] (j_mercuryAPIKey j),
                  InvoiceNinjaToken = override [] (j_invoiceNinjaToken j),
                  InvoiceNinjaURL = override [] (j_invoiceNinjaURL j),
                  BankProvider = override ''Mercury'' (j_invoiceNinjaBankProvider j),
                  SyncIntervalHours = override 1 (j_syncIntervalHours j),
                  SyncStartDaysAgo = override 7 (j_syncStartDaysAgo j),
                  LogLevel = override ''info'' (j_logLevel j),
                  stateFilePath = filepath_Join dataDir ''sync_state.json'',
                  bankIntegrationID = [],
                  mercuryAccounts = []\<rparr>
           in if MercuryAPIKey config = [] then Inl (Err ''missing Mercury API key'')
              else if InvoiceNinjaToken config = [] then Inl (Err ''missing InvoiceNinja token'')
              else
                (let config1 = (if InvoiceNinjaURL config = []
                                then config\<lparr>InvoiceNinjaURL := invoiceNinjaURL\<rparr>
                                else config)
                 in case ParseRequestURI (InvoiceNinjaURL config1) of
                      Some err \<Rightarrow> Inl (Err (''invalid InvoiceNinja URL: '' @ err))
                    | None \<Rightarrow> Inr config1)))"

section \<open>Observing a cycle\<close>

text \<open>
  What a computation added to the record of calls and to the log, and the calls of
  \<^verbatim>\<open>createInvoiceNinjaTransaction\<close> made for one transaction identifier.
\<close>

definition newCalls :: "world \<Rightarrow> world \<Rightarrow> call list" where
  "newCalls w w' = drop (length (calls w)) (calls w')"

definition newLogs :: "world \<Rightarrow> world \<Rightarrow> log_entry list" where
  "newLogs w w' = drop (length (logs w)) (logs w')"

definition isPostFor :: "string \<Rightarrow> call \<Rightarrow> bool" where
  "isPostFor x c = (case c of Post y b r \<Rightarrow> y = x | Fetch a s r \<Rightarrow> False)"

definition postsFor :: "string \<Rightarrow> call list \<Rightarrow> call list" where
  "postsFor x cs = filter (isPostFor x) cs"

fun fetchedAccounts :: "call list \<Rightarrow> MercuryAccount list" where
  "fetchedAccounts [] = []"
| "fetchedAccounts (Fetch a s r # cs) = a # fetchedAccounts cs"
| "fetchedAccounts (Post x b r # cs) = fetchedAccounts cs"

text \<open>
  The relation between the state before a stretch of a cycle, the calls of the stretch,
  its result and the state after it, that the loops maintain.
\<close>

definition cycleInv :: "SyncState \<Rightarrow> call list \<Rightarrow> error option \<Rightarrow> SyncState \<Rightarrow> bool" where
  "cycleInv st new r st' \<longleftrightarrow>
     dom (ProcessedTxIDs st') = dom (ProcessedTxIDs st) \<union> {x. \<exists>b. Post x b None \<in> set new}
   \<and> (\<forall>x. x \<in> dom (ProcessedTxIDs st) \<longrightarrow> ProcessedTxIDs st' x = ProcessedTxIDs st x)
   \<and> (\<forall>x. length (postsFor x new) \<le> 1)
   \<and> (\<forall>x b out. Post x b out \<in> set new \<longrightarrow> x \<notin> dom (ProcessedTxIDs st))
   \<and> (\<forall>x b err. Post x b (Some err) \<in> set new \<longrightarrow> r = Some err)
   \<and> (\<forall>err. r = Some err \<longrightarrow> (\<exists>x b. Post x b (Some err) \<in> set new))"

definition provenance :: "Config \<Rightarrow> call list \<Rightarrow> bool" where
  \<comment> \<open>every post is made for a transaction some fetch of the stretch returned\<close>
  "provenance config new \<longleftrightarrow>
     (\<forall>x b out. Post x b out \<in> set new \<longrightarrow>
        (\<exists>a s txs tx. Fetch a s (Inr txs) \<in> set new \<and> tx \<in> set txs \<and> x = tx_ID tx
           \<and> b = bankTX config tx))"

definition allRecorded :: "call list \<Rightarrow> SyncState \<Rightarrow> bool" where
  \<comment> \<open>every transaction a fetch of the stretch returned is in the state\<close>
  "allRecorded new st' \<longleftrightarrow>
     (\<forall>a s txs. Fetch a s (Inr txs) \<in> set new \<longrightarrow> tx_ID ` set txs \<subseteq> dom (ProcessedTxIDs st'))"

definition failuresLogged :: "call list \<Rightarrow> log_entry list \<Rightarrow> bool" where
  \<comment> \<open>every failed fetch among the calls has its error entry in the log\<close>
  "failuresLogged nc nl \<longleftrightarrow>
     (\<forall>a s err. Fetch a s (Inl err) \<in> set nc \<longrightarrow>
        Log Error ''Error fetching transactions''
          [(''account'', AStr (acct_Name a)), (''error'', AErr err)] \<in> set nl)"

section \<open>Concrete runs\<close>

text \<open>
  Two accounts, two transactions, and environments in which both services and the disk
  answer well, the destination would refuse one transaction, the disk is full, one
  account cannot be fetched, and both accounts report the same transaction.
\<close>

definition acctA :: MercuryAccount where
  "acctA = \<lparr>acct_ID = ''acct-a'', acct_Name = ''Checking''\<rparr>"

definition acctB :: MercuryAccount where
  "acctB = \<lparr>acct_ID = ''acct-b'', acct_Name = ''Savings''\<rparr>"

definition noon :: Timestamp where
  "noon = \<lparr>t_year = 2024, t_month = 3, t_day = 5, t_hour = 12, t_minute = 0, t_second = 0,
            t_offset = - 18000\<rparr>"

definition tx1 :: MercuryTransaction where
  "tx1 = \<lparr>tx_ID = ''tx-1'', tx_Amount = 251 / 2, BankDescription = ''invoice 17'',
           PostedAt = noon\<rparr>"

definition tx2 :: MercuryTransaction where
  "tx2 = \<lparr>tx_ID = ''tx-2'', tx_Amount = - 40, BankDescription = ''rent'', PostedAt = noon\<rparr>"

definition cfgA :: Config where
  "cfgA = \<lparr>MercuryAPIKey = ''key'', InvoiceNinjaToken = ''token'',
            InvoiceNinjaURL = ''https://ninja.example'', BankProvider = ''Mercury'',
            SyncIntervalHours = 1, SyncStartDaysAgo = 7, LogLevel = ''info'',
            stateFilePath = ''/data/sync_state.json'', bankIntegrationID = ''bank-1'',
            mercuryAccounts = [acctA]\<rparr>"

definition cfgAB :: Config where
  "cfgAB = cfgA\<lparr>mercuryAccounts := [acctA, acctB]\<rparr>"

definition cfg30 :: Config where
  "cfg30 = cfgA\<lparr>SyncStartDaysAgo := 30\<rparr>"

definition st0 :: SyncState where
  "st0 = \<lparr>ProcessedTxIDs = Map.empty\<rparr>"

definition w0 :: world where
  "w0 = \<lparr>clock = 1700000000000000000, calls = [], sent = [], logs = [], stateFile = Absent\<rparr>"

definition envOK :: env where
  "envOK = \<lparr>fetchOutcome = (\<lambda>w a s. if a = acctA then Inr [tx1, tx2] else Inr []),
             postOutcome = (\<lambda>w b. None),
             mkdirOutcome = (\<lambda>w. None),
             writeOutcome = (\<lambda>w. None),
             elapsed = (\<lambda>w. 1000000000)\<rparr>"

definition envRefused :: env where
  "envRefused =
     envOK\<lparr>postOutcome := (\<lambda>w b. if Description b = ''rent'' then Some (Err ''422'') else None)\<rparr>"

definition envDiskFull :: env where
  "envDiskFull = envOK\<lparr>writeOutcome := (\<lambda>w. Some (Err ''no space left on device'', stateFile w))\<rparr>"

definition envADown :: env where
  "envADown =
     envOK\<lparr>fetchOutcome := (\<lambda>w a s. if a = acctA then Inl (Err ''timeout'') else Inr [tx2])\<rparr>"

definition envSame :: env where
  "envSame = envOK\<lparr>fetchOutcome := (\<lambda>w a s. Inr [tx1])\<rparr>"

text \<open>States: both transactions recorded an hour before \<open>w0\<close>, and the first one eight days before.\<close>

definition stSeen :: SyncState where
  "stSeen = \<lparr>ProcessedTxIDs = [''tx-1'' \<mapsto> 1699996400000000000, ''tx-2'' \<mapsto> 1699996400000000000]\<rparr>"

definition stOld :: SyncState where
  "stOld = \<lparr>ProcessedTxIDs = [''tx-1'' \<mapsto> 1699308800000000000]\<rparr>"

text \<open>
  An environment in which no account has a transaction and the disk is full, and a world
  whose state file holds what \<open>stOld\<close> holds.
\<close>

definition envQuiet :: env where
  "envQuiet = envDiskFull\<lparr>fetchOutcome := (\<lambda>w a s. Inr [])\<rparr>"

definition wSaved :: world where
  "wSaved = w0\<lparr>stateFile := Snapshot (ProcessedTxIDs stOld)\<rparr>"

text \<open>The error every attempt to post returns under \<open>cfgA\<close>, \<open>cfgAB\<close> and \<open>cfg30\<close>.\<close>

definition errRequest :: error where
  "errRequest = Err ''error creating request: POST https://ninja.example/api/v1/bank_transactions: cannot handle type main.InvoiceNinjaBankTX''"

text \<open>A configuration file with the two mandatory keys only, and what it loads to.\<close>

definition acceptURI :: "string \<Rightarrow> string option" where
  "acceptURI u = None"

definition jKeys :: ConfigJSON where
  "jKeys = \<lparr>j_mercuryAPIKey = Some ''key'', j_invoiceNinjaToken = Some ''token'',
             j_invoiceNinjaURL = None, j_invoiceNinjaBankProvider = None,
             j_syncIntervalHours = None, j_syncStartDaysAgo = None, j_logLevel = None\<rparr>"

definition cfgLoaded :: Config where
  "cfgLoaded = \<lparr>MercuryAPIKey = ''key'', InvoiceNinjaToken = ''token'',
                 InvoiceNinjaURL = ''https://ninja.example'', BankProvider = ''Mercury'',
                 SyncIntervalHours = 1, SyncStartDaysAgo = 7, LogLevel = ''info'',
                 stateFilePath = ''/data/sync_state.json'', bankIntegrationID = [],
                 mercuryAccounts = []\<rparr>"

section \<open>Lemmas\<close>

subsection \<open>Pruning does not depend on the order of visit\<close>

lemma pruneLoop_at:
  "pruneLoop ids c m k = (if k \<in> set ids then prune c m k else m k)"
proof (induction ids arbitrary: m k)
  case Nil
  show ?case by simp
next
  case (Cons a ids)
  show ?case
    by (cases "m a") (auto simp: Cons.IH prune_def)
qed

lemma pruneLoop_prune:
  assumes "dom m \<subseteq> set ids"
  shows "pruneLoop ids c m = prune c m"
proof
  fix k
  show "pruneLoop ids c m k = prune c m k"
  proof (cases "k \<in> set ids")
    case True
    then show ?thesis by (simp add: pruneLoop_at)
  next
    case False
    with assms have "m k = None" by auto
    then show ?thesis using False by (simp add: pruneLoop_at prune_def)
  qed
qed

lemma syncTransactions_no_accounts:
  "mercuryAccounts config = [] \<Longrightarrow>
   syncTransactions e config state w =
     (None, state\<lparr>ProcessedTxIDs := prune (AddDate (clock w) (- 7)) (ProcessedTxIDs state)\<rparr>,
      slog Debug ''Sync completed'' [(''transactions'', ANat 0)] w)"
  by (simp add: syncTransactions_def)

subsection \<open>What the loops maintain\<close>

lemma postsFor_simps [simp]:
  "postsFor x [] = []"
  "postsFor x (Fetch a s r # cs) = postsFor x cs"
  "postsFor x (Post y b out # cs) = (if y = x then Post y b out # postsFor x cs else postsFor x cs)"
  "postsFor x (cs @ ds) = postsFor x cs @ postsFor x ds"
  by (simp_all add: postsFor_def isPostFor_def)

lemma postsFor_empty_iff:
  "postsFor x cs = [] \<longleftrightarrow> (\<forall>b out. Post x b out \<notin> set cs)"
  by (induction cs) (auto simp: postsFor_def isPostFor_def split: call.splits)

lemma cycleInv_refl: "cycleInv st [] None st"
  by (simp add: cycleInv_def)

lemma cycleInv_fetch:
  "cycleInv st new r st' \<Longrightarrow> cycleInv st (Fetch a s out # new) r st'"
  by (simp add: cycleInv_def)

lemma cycleInv_post_ok:
  assumes "ProcessedTxIDs st x = None"
  shows "cycleInv st [Post x b None] None (st\<lparr>ProcessedTxIDs := (ProcessedTxIDs st)(x \<mapsto> t)\<rparr>)"
  using assms by (auto simp: cycleInv_def)

lemma cycleInv_post_fail:
  assumes "ProcessedTxIDs st x = None"
  shows "cycleInv st [Post x b (Some err)] (Some err) st"
  using assms by (auto simp: cycleInv_def)

lemma cycleInv_trans:
  assumes a: "cycleInv st n1 None st1" and b: "cycleInv st1 n2 r st2"
  shows "cycleInv st (n1 @ n2) r st2"
proof -
  have dom1: "dom (ProcessedTxIDs st1) = dom (ProcessedTxIDs st) \<union> {x. \<exists>b. Post x b None \<in> set n1}"
    using a by (simp add: cycleInv_def)
  have dom2: "dom (ProcessedTxIDs st2) = dom (ProcessedTxIDs st1) \<union> {x. \<exists>b. Post x b None \<in> set n2}"
    using b by (simp add: cycleInv_def)
  have nofail1: "\<And>x b out. Post x b out \<in> set n1 \<Longrightarrow> out = None"
  proof -
    fix x b out assume "Post x b out \<in> set n1"
    then show "out = None" using a by (cases out) (auto simp: cycleInv_def)
  qed
  have fresh2: "\<And>x b out. Post x b out \<in> set n2 \<Longrightarrow> x \<notin> dom (ProcessedTxIDs st1)"
    using b unfolding cycleInv_def by blast
  have fresh1: "\<And>x b out. Post x b out \<in> set n1 \<Longrightarrow> x \<notin> dom (ProcessedTxIDs st)"
    using a unfolding cycleInv_def by blast
  have c1: "dom (ProcessedTxIDs st2) = dom (ProcessedTxIDs st) \<union> {x. \<exists>b. Post x b None \<in> set (n1 @ n2)}"
    unfolding dom2 dom1 by auto
  have c2: "\<forall>x. x \<in> dom (ProcessedTxIDs st) \<longrightarrow> ProcessedTxIDs st2 x = ProcessedTxIDs st x"
  proof (intro allI impI)
    fix x assume x: "x \<in> dom (ProcessedTxIDs st)"
    then have "x \<in> dom (ProcessedTxIDs st1)" using dom1 by blast
    then have "ProcessedTxIDs st2 x = ProcessedTxIDs st1 x"
      using b unfolding cycleInv_def by blast
    moreover have "ProcessedTxIDs st1 x = ProcessedTxIDs st x"
      using a x unfolding cycleInv_def by blast
    ultimately show "ProcessedTxIDs st2 x = ProcessedTxIDs st x" by simp
  qed
  have c3: "\<forall>x. length (postsFor x (n1 @ n2)) \<le> 1"
  proof
    fix x
    show "length (postsFor x (n1 @ n2)) \<le> 1"
    proof (cases "postsFor x n1 = []")
      case True
      then show ?thesis using b by (simp add: cycleInv_def)
    next
      case False
      then obtain b0 out where p: "Post x b0 out \<in> set n1"
        by (auto simp: postsFor_empty_iff)
      then have "out = None" by (rule nofail1)
      with p have "x \<in> dom (ProcessedTxIDs st1)" unfolding dom1 by blast
      then have "postsFor x n2 = []"
        using fresh2 by (auto simp: postsFor_empty_iff)
      then show ?thesis using a by (simp add: cycleInv_def)
    qed
  qed
  have c4: "\<forall>x b out. Post x b out \<in> set (n1 @ n2) \<longrightarrow> x \<notin> dom (ProcessedTxIDs st)"
    using fresh1 fresh2 dom1 by auto
  have c5: "\<forall>x b err. Post x b (Some err) \<in> set (n1 @ n2) \<longrightarrow> r = Some err"
  proof (intro allI impI)
    fix x b err assume "Post x b (Some err) \<in> set (n1 @ n2)"
    then consider "Post x b (Some err) \<in> set n1" | "Post x b (Some err) \<in> set n2" by auto
    then show "r = Some err"
    proof cases
      case 1
      then show ?thesis using nofail1 by blast
    next
      case 2
      then show ?thesis using b unfolding cycleInv_def by blast
    qed
  qed
  have c6: "\<forall>err. r = Some err \<longrightarrow> (\<exists>x b. Post x b (Some err) \<in> set (n1 @ n2))"
  proof (intro allI impI)
    fix err assume "r = Some err"
    then obtain x b where "Post x b (Some err) \<in> set n2"
      using b unfolding cycleInv_def by blast
    then show "\<exists>x b. Post x b (Some err) \<in> set (n1 @ n2)" by auto
  qed
  show ?thesis
    unfolding cycleInv_def using c1 c2 c3 c4 c5 c6 by blast
qed

lemma slog_fields [simp]:
  "calls (slog l msg attrs w) = calls w"
  "sent (slog l msg attrs w) = sent w"
  "stateFile (slog l msg attrs w) = stateFile w"
  "clock (slog l msg attrs w) = clock w"
  "logs (slog l msg attrs w) = logs w @ [Log l msg attrs]"
  by (simp_all add: slog_def)

lemma called_fields [simp]:
  "calls (called e c w) = calls w @ [c]"
  "sent (called e c w) = sent w"
  "stateFile (called e c w) = stateFile w"
  "logs (called e c w) = logs w"
  "clock (called e c w) = clock w + elapsed e w"
  by (simp_all add: called_def)

text \<open>The request for a post is never built: the call returns the error of \<^verbatim>\<open>getRequest\<close>.\<close>

lemma getRequest_struct:
  "getInvoiceNinjaRequest config ''POST'' ''/bank_transactions'' (RawStruct b) =
     Some (Err (''error creating request: POST '' @ InvoiceNinjaURL config
                  @ ''/api/v1/bank_transactions: cannot handle type main.InvoiceNinjaBankTX''))"
  by (simp add: getInvoiceNinjaRequest_def getRequest_def rh_NewRequest_def)

lemma create_fails:
  "createInvoiceNinjaTransaction e config tx w =
     (Some (Err (''error creating request: POST '' @ InvoiceNinjaURL config
                   @ ''/api/v1/bank_transactions: cannot handle type main.InvoiceNinjaBankTX'')),
      (slog Debug ''Creating bank transaction in InvoiceNinja''
         [(''amount'', ARat (tx_Amount tx)), (''description'', AStr (BankDescription tx))] w)
        \<lparr>calls := calls w @
           [Post (tx_ID tx) (bankTX config tx)
              (Some (Err (''error creating request: POST '' @ InvoiceNinjaURL config
                 @ ''/api/v1/bank_transactions: cannot handle type main.InvoiceNinjaBankTX'')))]\<rparr>)"
  by (simp add: createInvoiceNinjaTransaction_def Let_def getRequest_struct)

lemma create_world:
  assumes "createInvoiceNinjaTransaction e config tx w = (r, w1)"
  shows "calls w1 = calls w @ [Post (tx_ID tx) (bankTX config tx) r]"
    and "stateFile w1 = stateFile w"
    and "sent w1 = sent w"
    and "clock w1 = clock w"
  using assms unfolding create_fails by auto

lemma fetch_world:
  assumes "fetchMercuryTransactions e config acct w = (r, w1)"
  shows "\<exists>s. calls w1 = calls w @ [Fetch acct s r]"
    and "stateFile w1 = stateFile w"
    and "sent w1 = sent w"
  using assms by (auto simp: fetchMercuryTransactions_def Let_def)

lemma cycleInv_dom_mono:
  "cycleInv st new r st' \<Longrightarrow> dom (ProcessedTxIDs st) \<subseteq> dom (ProcessedTxIDs st')"
  by (auto simp: cycleInv_def)

lemma syncTxs_inv:
  "syncTxs e config txs st w p t = (r, st', w', p', t') \<Longrightarrow>
   \<exists>new. calls w' = calls w @ new \<and> stateFile w' = stateFile w \<and> cycleInv st new r st'
     \<and> (\<forall>c \<in> set new. \<exists>tx \<in> set txs. \<exists>out. c = Post (tx_ID tx) (bankTX config tx) out)
     \<and> (r = None \<longrightarrow> tx_ID ` set txs \<subseteq> dom (ProcessedTxIDs st'))"
proof (induction txs arbitrary: st w p t)
  case Nil
  then show ?case by (auto simp: cycleInv_refl)
next
  case (Cons tx txs)
  show ?case
  proof (cases "ProcessedTxIDs st (tx_ID tx) \<noteq> None")
    case True
    let ?w1 = "slog Debug ''Skipping already processed transaction'' [(''id'', AStr (tx_ID tx))] w"
    from Cons.prems True have "syncTxs e config txs st ?w1 p t = (r, st', w', p', t')"
      by simp
    from Cons.IH[OF this] obtain new where
      n: "calls w' = calls w @ new" "stateFile w' = stateFile w" "cycleInv st new r st'"
         "\<forall>c \<in> set new. \<exists>tx \<in> set txs. \<exists>out. c = Post (tx_ID tx) (bankTX config tx) out"
         "r = None \<longrightarrow> tx_ID ` set txs \<subseteq> dom (ProcessedTxIDs st')"
      by auto
    have "tx_ID tx \<in> dom (ProcessedTxIDs st')"
      using True cycleInv_dom_mono[OF n(3)] by auto
    with n show ?thesis by auto
  next
    case False
    then have fresh: "ProcessedTxIDs st (tx_ID tx) = None" by simp
    obtain out w1 where c: "createInvoiceNinjaTransaction e config tx w = (out, w1)"
      by (cases "createInvoiceNinjaTransaction e config tx w")
    note cw = create_world[OF c]
    show ?thesis
    proof (cases out)
      case (Some err)
      with Cons.prems fresh c have res: "r = Some err" "st' = st" "w' = w1"
        by auto
      have "cycleInv st [Post (tx_ID tx) (bankTX config tx) (Some err)] (Some err) st"
        using fresh by (rule cycleInv_post_fail)
      with res cw Some show ?thesis by auto
    next
      case None
      let ?st1 = "st\<lparr>ProcessedTxIDs := (ProcessedTxIDs st)(tx_ID tx \<mapsto> clock w1)\<rparr>"
      from Cons.prems fresh c None
      have "syncTxs e config txs ?st1 w1 (p + 1) (t + 1) = (r, st', w', p', t')"
        by simp
      from Cons.IH[OF this] obtain new where
        n: "calls w' = calls w1 @ new" "stateFile w' = stateFile w1" "cycleInv ?st1 new r st'"
           "\<forall>c \<in> set new. \<exists>tx \<in> set txs. \<exists>out. c = Post (tx_ID tx) (bankTX config tx) out"
           "r = None \<longrightarrow> tx_ID ` set txs \<subseteq> dom (ProcessedTxIDs st')"
        by auto
      have i1: "cycleInv st [Post (tx_ID tx) (bankTX config tx) None] None ?st1"
        using fresh by (rule cycleInv_post_ok)
      have inv: "cycleInv st ([Post (tx_ID tx) (bankTX config tx) None] @ new) r st'"
        using i1 n(3) by (rule cycleInv_trans)
      have "tx_ID tx \<in> dom (ProcessedTxIDs st')"
        using cycleInv_dom_mono[OF n(3)] by auto
      with n inv cw None show ?thesis by auto
    qed
  qed
qed

lemma fetchedAccounts_append [simp]:
  "fetchedAccounts (cs @ ds) = fetchedAccounts cs @ fetchedAccounts ds"
  by (induction cs rule: fetchedAccounts.induct) auto

lemma fetchedAccounts_posts:
  "\<forall>c \<in> set cs. \<exists>x b out. c = Post x b out \<Longrightarrow> fetchedAccounts cs = []"
  by (induction cs rule: fetchedAccounts.induct) auto

lemma provenance_step:
  assumes "\<forall>c \<in> set n1. \<exists>tx \<in> set txs. \<exists>out. c = Post (tx_ID tx) (bankTX config tx) out"
    and "provenance config n2"
  shows "provenance config (Fetch a s (Inr txs) # n1 @ n2)"
  unfolding provenance_def
proof (intro allI impI)
  fix x b out
  assume "Post x b out \<in> set (Fetch a s (Inr txs) # n1 @ n2)"
  then consider "Post x b out \<in> set n1" | "Post x b out \<in> set n2" by auto
  then show "\<exists>a' s' txs' tx. Fetch a' s' (Inr txs') \<in> set (Fetch a s (Inr txs) # n1 @ n2)
      \<and> tx \<in> set txs' \<and> x = tx_ID tx \<and> b = bankTX config tx"
  proof cases
    case 1
    with assms(1) have "\<exists>tx \<in> set txs. \<exists>out'. Post x b out = Post (tx_ID tx) (bankTX config tx) out'"
      by (rule bspec)
    then obtain tx where "tx \<in> set txs" "x = tx_ID tx" "b = bankTX config tx"
      by auto
    then show ?thesis by (intro exI[of _ a] exI[of _ s] exI[of _ txs] exI[of _ tx]) simp
  next
    case 2
    with assms(2) obtain a' s' txs' tx where
      "Fetch a' s' (Inr txs') \<in> set n2" "tx \<in> set txs'" "x = tx_ID tx" "b = bankTX config tx"
      unfolding provenance_def by blast
    then show ?thesis by (intro exI[of _ a'] exI[of _ s'] exI[of _ txs'] exI[of _ tx]) simp
  qed
qed

lemma provenance_skip:
  assumes "provenance config n2"
  shows "provenance config (Fetch a s out # n2)"
  unfolding provenance_def
proof (intro allI impI)
  fix x b out'
  assume "Post x b out' \<in> set (Fetch a s out # n2)"
  then have "Post x b out' \<in> set n2" by simp
  with assms obtain a' s' txs' tx where
    "Fetch a' s' (Inr txs') \<in> set n2" "tx \<in> set txs'" "x = tx_ID tx" "b = bankTX config tx"
    unfolding provenance_def by blast
  then show "\<exists>a' s' txs' tx. Fetch a' s' (Inr txs') \<in> set (Fetch a s out # n2)
      \<and> tx \<in> set txs' \<and> x = tx_ID tx \<and> b = bankTX config tx"
    by (intro exI[of _ a'] exI[of _ s'] exI[of _ txs'] exI[of _ tx]) simp
qed

lemma syncAccounts_inv:
  "syncAccounts e config accts st w t = (r, st', w', t') \<Longrightarrow>
   \<exists>new. calls w' = calls w @ new \<and> stateFile w' = stateFile w \<and> cycleInv st new r st'
     \<and> provenance config new
     \<and> (r = None \<longrightarrow> fetchedAccounts new = accts \<and> allRecorded new st')"
proof (induction accts arbitrary: st w t)
  case Nil
  then show ?case by (auto simp: cycleInv_refl provenance_def allRecorded_def)
next
  case (Cons acct accts)
  let ?w0 = "slog Debug ''Processing account'' [(''name'', AStr (acct_Name acct))] w"
  obtain res w1 where f: "fetchMercuryTransactions e config acct ?w0 = (res, w1)"
    by (cases "fetchMercuryTransactions e config acct ?w0")
  from fetch_world[OF f] obtain s where
    fw: "calls w1 = calls w @ [Fetch acct s res]" "stateFile w1 = stateFile w"
    by auto
  show ?case
  proof (cases res)
    case (Inl err)
    let ?w2 = "slog Error ''Error fetching transactions''
               [(''account'', AStr (acct_Name acct)), (''error'', AErr err)] w1"
    from Cons.prems f Inl have "syncAccounts e config accts st ?w2 t = (r, st', w', t')"
      by simp
    from Cons.IH[OF this] obtain new where
      n: "calls w' = calls w1 @ new" "stateFile w' = stateFile w1" "cycleInv st new r st'"
         "provenance config new"
         "r = None \<longrightarrow> fetchedAccounts new = accts \<and> allRecorded new st'"
      by auto
    have "calls w' = calls w @ (Fetch acct s res # new)" using n(1) fw(1) by simp
    moreover have "cycleInv st (Fetch acct s res # new) r st'" using n(3) by (rule cycleInv_fetch)
    moreover have "provenance config (Fetch acct s res # new)" using n(4) by (rule provenance_skip)
    moreover have "r = None \<longrightarrow> fetchedAccounts (Fetch acct s res # new) = acct # accts
        \<and> allRecorded (Fetch acct s res # new) st'"
      using n(5) Inl by (auto simp: allRecorded_def)
    ultimately show ?thesis using n(2) fw(2)
      by (intro exI[of _ "Fetch acct s res # new"]) simp
  next
    case (Inr txs)
    show ?thesis
    proof (cases "length txs = 0")
      case True
      from Cons.prems f Inr True have "syncAccounts e config accts st w1 t = (r, st', w', t')"
        by simp
      from Cons.IH[OF this] obtain new where
        n: "calls w' = calls w1 @ new" "stateFile w' = stateFile w1" "cycleInv st new r st'"
           "provenance config new"
           "r = None \<longrightarrow> fetchedAccounts new = accts \<and> allRecorded new st'"
        by auto
      have "calls w' = calls w @ (Fetch acct s res # new)" using n(1) fw(1) by simp
      moreover have "cycleInv st (Fetch acct s res # new) r st'" using n(3) by (rule cycleInv_fetch)
      moreover have "provenance config (Fetch acct s res # new)" using n(4) by (rule provenance_skip)
      moreover have "r = None \<longrightarrow> fetchedAccounts (Fetch acct s res # new) = acct # accts
          \<and> allRecorded (Fetch acct s res # new) st'"
        using n(5) Inr True by (auto simp: allRecorded_def)
      ultimately show ?thesis using n(2) fw(2)
      by (intro exI[of _ "Fetch acct s res # new"]) simp
    next
      case False
      let ?w2 = "slog Debug ''Processing transactions''
                 [(''account'', AStr (acct_Name acct)), (''count'', ANat (length txs))] w1"
      obtain r1 st1 w2 p1 t1 where x: "syncTxs e config txs st ?w2 0 t = (r1, st1, w2, p1, t1)"
        by (cases "syncTxs e config txs st ?w2 0 t") auto
      from syncTxs_inv[OF x] obtain n1 where
        m: "calls w2 = calls w1 @ n1" "stateFile w2 = stateFile w1" "cycleInv st n1 r1 st1"
           "\<forall>c \<in> set n1. \<exists>tx \<in> set txs. \<exists>out. c = Post (tx_ID tx) (bankTX config tx) out"
           "r1 = None \<longrightarrow> tx_ID ` set txs \<subseteq> dom (ProcessedTxIDs st1)"
        by auto
      have noF: "fetchedAccounts n1 = []"
        using m(4) by (intro fetchedAccounts_posts) blast
      show ?thesis
      proof (cases r1)
        case (Some err)
        with Cons.prems f Inr False x have res: "r = Some err" "st' = st1" "w' = w2"
          by auto
        have "calls w' = calls w @ (Fetch acct s res # n1)" using res m(1) fw(1) by simp
        moreover have "cycleInv st (Fetch acct s res # n1) r st'"
          using m(3) res Some by (auto intro: cycleInv_fetch)
        moreover have "provenance config (Fetch acct s res # n1)"
          using provenance_step[OF m(4), where ?n2.0 = "[]" and a = acct and s = s] Inr
          by (simp add: provenance_def)
        ultimately show ?thesis using res m(2) fw(2)
          by (intro exI[of _ "Fetch acct s res # n1"]) simp
      next
        case None
        let ?w3 = "if p1 > 0
                   then slog Info ''Account sync completed''
                          [(''account'', AStr (acct_Name acct)), (''transactions'', ANat p1)] w2
                   else w2"
        from Cons.prems f Inr False x None
        have "syncAccounts e config accts st1 ?w3 t1 = (r, st', w', t')"
          by simp
        from Cons.IH[OF this] obtain n2 where
          n: "calls w' = calls ?w3 @ n2" "stateFile w' = stateFile ?w3" "cycleInv st1 n2 r st'"
             "provenance config n2"
             "r = None \<longrightarrow> fetchedAccounts n2 = accts \<and> allRecorded n2 st'"
          by auto
        have w3: "calls ?w3 = calls w2" "stateFile ?w3 = stateFile w2" by auto
        have "calls w' = calls w @ (Fetch acct s res # n1 @ n2)"
          using n(1) w3(1) m(1) fw(1) by simp
        moreover have "cycleInv st (Fetch acct s res # n1 @ n2) r st'"
          using cycleInv_trans[of st n1 st1 n2 r st'] m(3) n(3) None
          by (auto intro: cycleInv_fetch)
        moreover have "provenance config (Fetch acct s res # n1 @ n2)"
          using provenance_step[OF m(4) n(4)] Inr by simp
        moreover have "r = None \<longrightarrow> fetchedAccounts (Fetch acct s res # n1 @ n2) = acct # accts
            \<and> allRecorded (Fetch acct s res # n1 @ n2) st'"
        proof
          assume rn: "r = None"
          have sub: "dom (ProcessedTxIDs st1) \<subseteq> dom (ProcessedTxIDs st')"
            using n(3) by (rule cycleInv_dom_mono)
          have "tx_ID ` set txs \<subseteq> dom (ProcessedTxIDs st')"
            using m(5) None sub by blast
          moreover have "\<forall>c \<in> set n1. \<forall>a s txs. c \<noteq> Fetch a s (Inr txs)"
            using m(4) by auto
          ultimately have "allRecorded (Fetch acct s res # n1 @ n2) st'"
            using n(5) rn Inr by (auto simp: allRecorded_def)
          then show "fetchedAccounts (Fetch acct s res # n1 @ n2) = acct # accts
            \<and> allRecorded (Fetch acct s res # n1 @ n2) st'"
            using n(5) rn noF by simp
        qed
        ultimately show ?thesis using n(2) w3(2) m(2) fw(2)
          by (intro exI[of _ "Fetch acct s res # n1 @ n2"]) simp
      qed
    qed
  qed
qed

lemma newCalls_append: "calls w' = calls w @ new \<Longrightarrow> newCalls w w' = new"
  by (simp add: newCalls_def)

lemma syncTransactions_inv:
  assumes "syncTransactions e config st w = (r, st', w')"
  shows "calls w' = calls w @ newCalls w w'"
    and "stateFile w' = stateFile w"
    and "cycleInv (st\<lparr>ProcessedTxIDs := prune (AddDate (clock w) (- 7)) (ProcessedTxIDs st)\<rparr>)
           (newCalls w w') r st'"
    and "provenance config (newCalls w w')"
    and "r = None \<longrightarrow> fetchedAccounts (newCalls w w') = mercuryAccounts config
           \<and> allRecorded (newCalls w w') st'"
proof -
  let ?st1 = "st\<lparr>ProcessedTxIDs := prune (AddDate (clock w) (- 7)) (ProcessedTxIDs st)\<rparr>"
  obtain r1 st2 w1 t1 where
    a: "syncAccounts e config (mercuryAccounts config) ?st1 w 0 = (r1, st2, w1, t1)"
    by (cases "syncAccounts e config (mercuryAccounts config) ?st1 w 0") auto
  from syncAccounts_inv[OF a] obtain new where
    n: "calls w1 = calls w @ new" "stateFile w1 = stateFile w" "cycleInv ?st1 new r1 st2"
       "provenance config new"
       "r1 = None \<longrightarrow> fetchedAccounts new = mercuryAccounts config \<and> allRecorded new st2"
    by auto
  from assms a have res: "r = r1" "st' = st2" "calls w' = calls w1" "stateFile w' = stateFile w1"
    by (auto simp: syncTransactions_def Let_def split: option.splits)
  have nc: "newCalls w w' = new"
    using res(3) n(1) by (simp add: newCalls_append)
  show "calls w' = calls w @ newCalls w w'" using nc res(3) n(1) by simp
  show "stateFile w' = stateFile w" using res(4) n(2) by simp
  show "cycleInv ?st1 (newCalls w w') r st'" using nc res n(3) by simp
  show "provenance config (newCalls w w')" using nc n(4) by simp
  show "r = None \<longrightarrow> fetchedAccounts (newCalls w w') = mercuryAccounts config
           \<and> allRecorded (newCalls w w') st'"
    using nc res n(5) by simp
qed

lemma prune_dom: "dom (prune c m) \<subseteq> dom m"
  by (auto simp: prune_def split: option.splits if_splits)

lemma postsFor_length_one:
  assumes "Post x b out \<in> set cs" and "length (postsFor x cs) \<le> 1"
  shows "length (postsFor x cs) = 1"
proof -
  have "postsFor x cs \<noteq> []" using assms(1) by (auto simp: postsFor_empty_iff)
  then have "length (postsFor x cs) \<noteq> 0" by simp
  with assms(2) show ?thesis by linarith
qed

lemma prune_keeps: "m x = Some t \<Longrightarrow> \<not> Before t c \<Longrightarrow> prune c m x = Some t"
  by (simp add: prune_def)


lemma create_logs:
  assumes "createInvoiceNinjaTransaction e config tx w = (r, w1)"
  shows "\<exists>l. logs w1 = logs w @ [l]"
  using assms unfolding create_fails by auto

lemma fetch_logs:
  assumes "fetchMercuryTransactions e config acct w = (r, w1)"
  shows "\<exists>l. logs w1 = logs w @ [l]"
  using assms by (auto simp: fetchMercuryTransactions_def Let_def)

lemma syncTxs_logs:
  "syncTxs e config txs st w p t = (r, st', w', p', t') \<Longrightarrow> \<exists>nl. logs w' = logs w @ nl"
proof (induction txs arbitrary: st w p t)
  case Nil
  then show ?case by simp
next
  case (Cons tx txs)
  show ?case
  proof (cases "ProcessedTxIDs st (tx_ID tx) \<noteq> None")
    case True
    let ?w1 = "slog Debug ''Skipping already processed transaction'' [(''id'', AStr (tx_ID tx))] w"
    from Cons.prems True have "syncTxs e config txs st ?w1 p t = (r, st', w', p', t')"
      by simp
    from Cons.IH[OF this] obtain nl where "logs w' = logs ?w1 @ nl" by auto
    then show ?thesis by simp
  next
    case False
    then have fresh: "ProcessedTxIDs st (tx_ID tx) = None" by simp
    obtain out w1 where c: "createInvoiceNinjaTransaction e config tx w = (out, w1)"
      by (cases "createInvoiceNinjaTransaction e config tx w")
    from create_logs[OF c] obtain l where l: "logs w1 = logs w @ [l]" by auto
    show ?thesis
    proof (cases out)
      case (Some err)
      with Cons.prems fresh c have "w' = w1" by auto
      with l show ?thesis by simp
    next
      case None
      let ?st1 = "st\<lparr>ProcessedTxIDs := (ProcessedTxIDs st)(tx_ID tx \<mapsto> clock w1)\<rparr>"
      from Cons.prems fresh c None
      have "syncTxs e config txs ?st1 w1 (p + 1) (t + 1) = (r, st', w', p', t')"
        by simp
      from Cons.IH[OF this] obtain nl where "logs w' = logs w1 @ nl" by auto
      with l show ?thesis by simp
    qed
  qed
qed

lemma failuresLogged_ok:
  assumes "failuresLogged nc nl" and "\<forall>c \<in> set n1. \<exists>x b out. c = Post x b out"
  shows "failuresLogged (Fetch a s (Inr txs) # n1 @ nc) (l0 @ nl)"
  unfolding failuresLogged_def
proof (intro allI impI)
  fix a' s' err
  assume "Fetch a' s' (Inl err) \<in> set (Fetch a s (Inr txs) # n1 @ nc)"
  then have "Fetch a' s' (Inl err) \<in> set nc" using assms(2) by auto
  with assms(1) show "Log Error ''Error fetching transactions''
          [(''account'', AStr (acct_Name a')), (''error'', AErr err)] \<in> set (l0 @ nl)"
    unfolding failuresLogged_def by auto
qed

lemma failuresLogged_failed:
  assumes "failuresLogged nc nl"
  shows "failuresLogged (Fetch a s (Inl err) # nc)
     (l0 @ Log Error ''Error fetching transactions''
          [(''account'', AStr (acct_Name a)), (''error'', AErr err)] # nl)"
  unfolding failuresLogged_def
proof (intro allI impI)
  fix a' s' err'
  assume "Fetch a' s' (Inl err') \<in> set (Fetch a s (Inl err) # nc)"
  then consider "a' = a \<and> err' = err" | "Fetch a' s' (Inl err') \<in> set nc" by auto
  then show "Log Error ''Error fetching transactions''
          [(''account'', AStr (acct_Name a')), (''error'', AErr err')]
        \<in> set (l0 @ Log Error ''Error fetching transactions''
          [(''account'', AStr (acct_Name a)), (''error'', AErr err)] # nl)"
  proof cases
    case 1
    then show ?thesis by simp
  next
    case 2
    with assms show ?thesis unfolding failuresLogged_def by auto
  qed
qed

lemma syncAccounts_logs:
  "syncAccounts e config accts st w t = (r, st', w', t') \<Longrightarrow>
   \<exists>nc nl. calls w' = calls w @ nc \<and> logs w' = logs w @ nl \<and> failuresLogged nc nl"
proof (induction accts arbitrary: st w t)
  case Nil
  then show ?case by (simp add: failuresLogged_def)
next
  case (Cons acct accts)
  let ?w0 = "slog Debug ''Processing account'' [(''name'', AStr (acct_Name acct))] w"
  obtain res w1 where f: "fetchMercuryTransactions e config acct ?w0 = (res, w1)"
    by (cases "fetchMercuryTransactions e config acct ?w0")
  from fetch_world[OF f] obtain s where fw: "calls w1 = calls w @ [Fetch acct s res]"
    by auto
  from fetch_logs[OF f] obtain l1 where
    fl: "logs w1 = logs w @ [Log Debug ''Processing account'' [(''name'', AStr (acct_Name acct))], l1]"
    by auto
  let ?l0 = "[Log Debug ''Processing account'' [(''name'', AStr (acct_Name acct))], l1]"
  show ?case
  proof (cases res)
    case (Inl err)
    let ?le = "Log Error ''Error fetching transactions''
               [(''account'', AStr (acct_Name acct)), (''error'', AErr err)]"
    let ?w2 = "slog Error ''Error fetching transactions''
               [(''account'', AStr (acct_Name acct)), (''error'', AErr err)] w1"
    from Cons.prems f Inl have "syncAccounts e config accts st ?w2 t = (r, st', w', t')"
      by simp
    from Cons.IH[OF this] obtain nc nl where
      n: "calls w' = calls ?w2 @ nc" "logs w' = logs ?w2 @ nl" "failuresLogged nc nl"
      by auto
    have "calls w' = calls w @ (Fetch acct s (Inl err) # nc)" using n(1) fw Inl by simp
    moreover have "logs w' = logs w @ (?l0 @ ?le # nl)" using n(2) fl by simp
    moreover have "failuresLogged (Fetch acct s (Inl err) # nc) (?l0 @ ?le # nl)"
      using n(3) by (rule failuresLogged_failed)
    ultimately show ?thesis by blast
  next
    case (Inr txs)
    show ?thesis
    proof (cases "length txs = 0")
      case True
      from Cons.prems f Inr True have "syncAccounts e config accts st w1 t = (r, st', w', t')"
        by simp
      from Cons.IH[OF this] obtain nc nl where
        n: "calls w' = calls w1 @ nc" "logs w' = logs w1 @ nl" "failuresLogged nc nl"
        by auto
      have "calls w' = calls w @ (Fetch acct s (Inr txs) # [] @ nc)" using n(1) fw Inr by simp
      moreover have "logs w' = logs w @ (?l0 @ nl)" using n(2) fl by simp
      moreover have "failuresLogged (Fetch acct s (Inr txs) # [] @ nc) (?l0 @ nl)"
        using n(3) by (rule failuresLogged_ok) simp
      ultimately show ?thesis by blast
    next
      case False
      let ?w2 = "slog Debug ''Processing transactions''
                 [(''account'', AStr (acct_Name acct)), (''count'', ANat (length txs))] w1"
      obtain r1 st1 w2 p1 t1 where x: "syncTxs e config txs st ?w2 0 t = (r1, st1, w2, p1, t1)"
        by (cases "syncTxs e config txs st ?w2 0 t") auto
      from syncTxs_inv[OF x] obtain n1 where
        m: "calls w2 = calls w1 @ n1"
           "\<forall>c \<in> set n1. \<exists>tx \<in> set txs. \<exists>out. c = Post (tx_ID tx) (bankTX config tx) out"
        by auto
      have posts: "\<forall>c \<in> set n1. \<exists>x b out. c = Post x b out" using m(2) by blast
      from syncTxs_logs[OF x] obtain l2 where l2: "logs w2 = logs ?w2 @ l2" by auto
      have nofail: "failuresLogged [] []" by (simp add: failuresLogged_def)
      show ?thesis
      proof (cases r1)
        case (Some err)
        with Cons.prems f Inr False x have res: "w' = w2" by auto
        have "calls w' = calls w @ (Fetch acct s (Inr txs) # n1 @ [])"
          using res m(1) fw Inr by simp
        moreover have "logs w' = logs w @ (drop (length (logs w)) (logs w') @ [])"
          using res l2 fl by simp
        moreover have "failuresLogged (Fetch acct s (Inr txs) # n1 @ [])
            (drop (length (logs w)) (logs w') @ [])"
          using nofail posts by (rule failuresLogged_ok)
        ultimately show ?thesis by blast
      next
        case None
        let ?w3 = "if p1 > 0
                   then slog Info ''Account sync completed''
                          [(''account'', AStr (acct_Name acct)), (''transactions'', ANat p1)] w2
                   else w2"
        from Cons.prems f Inr False x None
        have "syncAccounts e config accts st1 ?w3 t1 = (r, st', w', t')"
          by simp
        from Cons.IH[OF this] obtain nc nl where
          n: "calls w' = calls ?w3 @ nc" "logs w' = logs ?w3 @ nl" "failuresLogged nc nl"
          by auto
        have c3: "calls ?w3 = calls w2" by simp
        obtain l3 where l3: "logs ?w3 = logs w2 @ l3" by (cases "p1 > 0") auto
        have "calls w' = calls w @ (Fetch acct s (Inr txs) # n1 @ nc)"
          using n(1) c3 m(1) fw Inr by simp
        moreover have "logs w' = logs w @ (drop (length (logs w)) (logs ?w3) @ nl)"
          using n(2) l3 l2 fl by simp
        moreover have "failuresLogged (Fetch acct s (Inr txs) # n1 @ nc)
            (drop (length (logs w)) (logs ?w3) @ nl)"
          using n(3) posts by (rule failuresLogged_ok)
        ultimately show ?thesis by blast
      qed
    qed
  qed
qed



lemma syncTransactions_logs_prefix:
  assumes "syncTransactions e config st w = (r, st', w')"
  shows "\<exists>nl. logs w' = logs w @ nl"
proof -
  let ?st1 = "st\<lparr>ProcessedTxIDs := prune (AddDate (clock w) (- 7)) (ProcessedTxIDs st)\<rparr>"
  obtain r1 st2 w1 t1 where
    a: "syncAccounts e config (mercuryAccounts config) ?st1 w 0 = (r1, st2, w1, t1)"
    by (cases "syncAccounts e config (mercuryAccounts config) ?st1 w 0") auto
  from syncAccounts_logs[OF a] obtain nl where n: "logs w1 = logs w @ nl" by auto
  from assms a have "\<exists>l. logs w' = logs w1 @ l"
    by (auto simp: syncTransactions_def Let_def split: option.splits)
  with n show ?thesis by auto
qed

lemma load_keys:
  "loadConfig acceptURI (Decoded jKeys) ''/data'' ''https://ninja.example'' = Inr cfgLoaded"
  by (simp add: loadConfig_def acceptURI_def jKeys_def cfgLoaded_def override_def filepath_Join_def)

lemma loadConfig_days:
  "loadConfig P (Decoded j) dir url = Inr c \<Longrightarrow> SyncStartDaysAgo c = override 7 (j_syncStartDaysAgo j)"
  by (auto simp: loadConfig_def Let_def split: if_splits option.splits)

lemma Duration_mul_exact:
  assumes "- 2562047 \<le> h" and "h \<le> 2562047"
  shows "Duration_mul h Hour = h * Hour"
proof -
  have lo: "- (2 ^ 63) \<le> h * 3600000000000" using assms(1) by simp
  have hi: "h * 3600000000000 < 2 ^ 63" using assms(2) by simp
  have "Duration_mul h Hour = sint (word_of_int (h * 3600000000000) :: 64 word)"
    unfolding Duration_mul_def Hour_def by (simp only: of_int_mult)
  also have "\<dots> = signed_take_bit 63 (h * 3600000000000)"
    by (simp only: sint_sbintrunc') simp
  also have "\<dots> = h * 3600000000000"
    using lo hi by (rule signed_take_bit_int_eq_self)
  finally show ?thesis by (simp add: Hour_def)
qed

lemma bankTX_Description [simp]: "Description (bankTX config tx) = BankDescription tx"
  by (simp add: bankTX_def)

lemma Sleep_fields [simp]:
  "calls (Sleep d w) = calls w"
  "logs (Sleep d w) = logs w"
  "stateFile (Sleep d w) = stateFile w"
  "clock (Sleep d w) = (if d \<le> 0 then clock w else clock w + d)"
  by (simp_all add: Sleep_def)

lemma mainIteration_fields:
  "fst (mainIteration e config st w) = fst (runCycle e config st w)"
  "calls (snd (mainIteration e config st w)) = calls (snd (runCycle e config st w))"
  "stateFile (snd (mainIteration e config st w)) = stateFile (snd (runCycle e config st w))"
  "logs (snd (mainIteration e config st w)) =
     logs (snd (runCycle e config st w)) @
       [Log Debug ''Waiting for next sync''
          [(''next_sync'', ATime (clock (snd (runCycle e config st w))
              + Duration_mul (SyncIntervalHours config) Hour))]]"
  "clock (snd (mainIteration e config st w)) =
     (if Duration_mul (SyncIntervalHours config) Hour \<le> 0 then clock (snd (runCycle e config st w))
      else clock (snd (runCycle e config st w)) + Duration_mul (SyncIntervalHours config) Hour)"
  by (simp_all add: mainIteration_def Let_def split: prod.splits)

lemma runCycle_failed:
  assumes "syncTransactions e config st w = (Some err, st1, w1)"
  shows "runCycle e config st w = (st1, slog Error ''Error in sync'' [(''error'', AErr err)] w1)"
  using assms by (simp add: runCycle_def)

lemma saveState_logs:
  assumes "saveState e st w = (r, w')"
  shows "logs w' = logs w" and "calls w' = calls w"
  using assms by (auto simp: saveState_def split: option.splits error.splits prod.splits)

lemma runCycle_save_failed:
  assumes "syncTransactions e config st w = (None, st1, w1)"
    and "saveState e st1 w1 = (Some err, wS)"
  shows "runCycle e config st w = (st1, slog Error ''Error saving state'' [(''error'', AErr err)] wS)"
  using assms by (simp add: runCycle_def)

subsection \<open>No post is sent, no identifier is recorded\<close>

lemma syncTxs_state:
  "syncTxs e config txs st w p t = (r, st', w', p', t') \<Longrightarrow> st' = st \<and> sent w' = sent w"
proof (induction txs arbitrary: w p t)
  case Nil
  then show ?case by simp
next
  case (Cons tx txs)
  show ?case
  proof (cases "ProcessedTxIDs st (tx_ID tx) \<noteq> None")
    case True
    let ?w1 = "slog Debug ''Skipping already processed transaction'' [(''id'', AStr (tx_ID tx))] w"
    from Cons.prems True have "syncTxs e config txs st ?w1 p t = (r, st', w', p', t')"
      by simp
    from Cons.IH[OF this] show ?thesis by simp
  next
    case False
    obtain out w1 where c: "createInvoiceNinjaTransaction e config tx w = (out, w1)"
      by (cases "createInvoiceNinjaTransaction e config tx w")
    then obtain err where "out = Some err" unfolding create_fails by auto
    with Cons.prems False c have "st' = st" "w' = w1" by auto
    with create_world(3)[OF c] show ?thesis by simp
  qed
qed

lemma syncAccounts_state:
  "syncAccounts e config accts st w t = (r, st', w', t') \<Longrightarrow> st' = st \<and> sent w' = sent w"
proof (induction accts arbitrary: w t)
  case Nil
  then show ?case by simp
next
  case (Cons acct accts)
  let ?w0 = "slog Debug ''Processing account'' [(''name'', AStr (acct_Name acct))] w"
  obtain res w1 where f: "fetchMercuryTransactions e config acct ?w0 = (res, w1)"
    by (cases "fetchMercuryTransactions e config acct ?w0")
  have s1: "sent w1 = sent w" using fetch_world(3)[OF f] by simp
  show ?case
  proof (cases res)
    case (Inl err)
    let ?w2 = "slog Error ''Error fetching transactions''
               [(''account'', AStr (acct_Name acct)), (''error'', AErr err)] w1"
    from Cons.prems f Inl have "syncAccounts e config accts st ?w2 t = (r, st', w', t')"
      by simp
    from Cons.IH[OF this] s1 show ?thesis by simp
  next
    case (Inr txs)
    show ?thesis
    proof (cases "length txs = 0")
      case True
      from Cons.prems f Inr True have "syncAccounts e config accts st w1 t = (r, st', w', t')"
        by simp
      from Cons.IH[OF this] s1 show ?thesis by simp
    next
      case False
      let ?w2 = "slog Debug ''Processing transactions''
                 [(''account'', AStr (acct_Name acct)), (''count'', ANat (length txs))] w1"
      obtain r1 st1 w2 p1 t1 where x: "syncTxs e config txs st ?w2 0 t = (r1, st1, w2, p1, t1)"
        by (cases "syncTxs e config txs st ?w2 0 t") auto
      from syncTxs_state[OF x] s1 have m: "st1 = st" "sent w2 = sent w" by simp_all
      show ?thesis
      proof (cases r1)
        case (Some err)
        with Cons.prems f Inr False x have "st' = st1" "w' = w2" by auto
        with m show ?thesis by simp
      next
        case None
        let ?w3 = "if p1 > 0
                   then slog Info ''Account sync completed''
                          [(''account'', AStr (acct_Name acct)), (''transactions'', ANat p1)] w2
                   else w2"
        from Cons.prems f Inr False x None m(1)
        have "syncAccounts e config accts st ?w3 t1 = (r, st', w', t')"
          by simp
        from Cons.IH[OF this] m(2) show ?thesis by simp
      qed
    qed
  qed
qed

lemma syncTransactions_state:
  assumes "syncTransactions e config st w = (r, st', w')"
  shows "st' = st\<lparr>ProcessedTxIDs := prune (AddDate (clock w) (- 7)) (ProcessedTxIDs st)\<rparr>"
    and "sent w' = sent w"
proof -
  let ?st1 = "st\<lparr>ProcessedTxIDs := prune (AddDate (clock w) (- 7)) (ProcessedTxIDs st)\<rparr>"
  obtain r1 st2 w1 t1 where
    a: "syncAccounts e config (mercuryAccounts config) ?st1 w 0 = (r1, st2, w1, t1)"
    by (cases "syncAccounts e config (mercuryAccounts config) ?st1 w 0") auto
  from syncAccounts_state[OF a] have n: "st2 = ?st1" "sent w1 = sent w" by simp_all
  from assms a have "st' = st2" "sent w' = sent w1"
    by (auto simp: syncTransactions_def Let_def split: option.splits)
  with n show "st' = ?st1" and "sent w' = sent w" by simp_all
qed

subsection \<open>Dates\<close>

lemma wrap64_exact:
  assumes "- 9223372036854775808 \<le> x" and "x < 9223372036854775808"
  shows "wrap64 x = x"
proof -
  have "wrap64 x = signed_take_bit 63 x"
    unfolding wrap64_def by (simp only: sint_sbintrunc') simp
  also have "\<dots> = x" using assms by (intro signed_take_bit_int_eq_self) simp_all
  finally show ?thesis .
qed

lemma AddDate_exact:
  assumes "- 9223372036854775808 \<le> t div 1000000000 + 62135596800 + days * 86400"
    and "t div 1000000000 + 62135596800 + days * 86400 < 9223372036854775808"
  shows "AddDate t days = t + days * (24 * Hour)"
proof -
  have "AddDate t days = (t div 1000000000 + days * 86400) * 1000000000 + t mod 1000000000"
    unfolding AddDate_def wrap64_exact[OF assms] by simp
  also have "\<dots> = (t div 1000000000 * 1000000000 + t mod 1000000000) + days * 86400000000000"
    by (simp add: algebra_simps)
  also have "t div 1000000000 * 1000000000 + t mod 1000000000 = t" by simp
  finally show ?thesis by (simp add: Hour_def)
qed

lemma AddDate_recent:
  assumes "0 \<le> t" and "t < 4000000000000000000"
    and "- 100000000000000 \<le> days" and "days \<le> 100000000000000"
  shows "AddDate t days = t + days * (24 * Hour)"
proof -
  have d: "0 \<le> t div 1000000000" "t div 1000000000 < 4000000000"
    using assms(1,2) by (simp_all add: div_less_iff_less_mult pos_imp_zdiv_nonneg_iff)
  show ?thesis using d assms(3,4) by (intro AddDate_exact) linarith+
qed

lemma Format_RFC3339_sum:
  "Format_RFC3339 (now + d * (24 * Hour)) = now + d * (24 * Hour) - now mod 1000000000"
proof -
  have "(now + d * (24 * Hour)) mod 1000000000 = (now + 1000000000 * (d * 86400)) mod 1000000000"
    by (simp add: Hour_def mult.commute)
  also have "\<dots> = now mod 1000000000" by (rule mod_mult_self2)
  finally show ?thesis by (simp add: Format_RFC3339_def)
qed

lemma cutoff_before_start_iff:
  assumes "0 \<le> now" and "now < 4000000000000000000"
    and "- 100000000000000 \<le> days" and "days \<le> 100000000000000"
  shows "AddDate now (- 7) < Format_RFC3339 (AddDate now (- days)) \<longleftrightarrow> days < 7"
proof -
  have m: "0 \<le> now mod 1000000000" "now mod 1000000000 < 1000000000" by simp_all
  have a: "AddDate now (- 7) = now + (- 7) * (24 * Hour)"
    using assms(1,2) by (intro AddDate_recent) simp_all
  have b: "AddDate now (- days) = now + (- days) * (24 * Hour)"
    using assms by (intro AddDate_recent) simp_all
  show ?thesis
    unfolding a b Format_RFC3339_sum using m by (simp add: Hour_def) arith
qed

text \<open>
  Beyond such bounds the count of seconds wraps: a lookback of 213503982334601 days starts
  25216 seconds after now.
\<close>

lemma AddDate_wraps:
  "Format_RFC3339 (AddDate 1700000000000000000 (- 213503982334601))
     = 1700000000000000000 + 25216000000000"
  by (simp add: AddDate_def wrap64_def Format_RFC3339_def)

subsection \<open>The concrete runs, evaluated\<close>

lemmas run_defs = acctA_def acctB_def noon_def tx1_def tx2_def cfgA_def cfgAB_def cfg30_def
  st0_def w0_def envOK_def envRefused_def envDiskFull_def envADown_def envSame_def
  envQuiet_def wSaved_def stSeen_def stOld_def errRequest_def
  syncTransactions_def fetchMercuryTransactions_def create_fails
  slog_def called_def AddDate_def wrap64_def Hour_def Format_RFC3339_def prune_def Before_def Let_def
  newCalls_def newLogs_def

lemmas loop_defs = mainIteration_def runCycle_def saveState_def Sleep_def Duration_mul_def

lemma run_seen_calls:
  "newCalls w0 (snd (snd (syncTransactions envOK cfgA stSeen w0))) =
     [Fetch acctA 1699395200000000000 (Inr [tx1, tx2])]"
  by (simp add: run_defs)

lemma run_new:
  "fst (syncTransactions envOK cfgA st0 w0) = Some errRequest"
  "newCalls w0 (snd (snd (syncTransactions envOK cfgA st0 w0))) =
     [Fetch acctA 1699395200000000000 (Inr [tx1, tx2]),
      Post ''tx-1'' (bankTX cfgA tx1) (Some errRequest)]"
  "sent (snd (snd (syncTransactions envOK cfgA st0 w0))) = []"
  "ProcessedTxIDs (fst (snd (syncTransactions envOK cfgA st0 w0))) ''tx-1'' = None"
  "clock (snd (runCycle envOK cfgA st0 w0)) = 1700000001000000000"
  by (simp_all add: run_defs loop_defs)

lemma run_refused_first:
  "newCalls w0 (snd (mainIteration envRefused cfgA st0 w0)) =
     [Fetch acctA 1699395200000000000 (Inr [tx1, tx2]),
      Post ''tx-1'' (bankTX cfgA tx1) (Some errRequest)]"
  "sent (snd (mainIteration envRefused cfgA st0 w0)) = []"
  "ProcessedTxIDs (fst (mainIteration envRefused cfgA st0 w0)) ''tx-1'' = None"
  "ProcessedTxIDs (fst (mainIteration envRefused cfgA st0 w0)) ''tx-2'' = None"
  "stateFile (snd (mainIteration envRefused cfgA st0 w0)) = Absent"
  by (simp_all add: run_defs loop_defs)

lemma run_refused_second:
  "newCalls (snd (mainIteration envRefused cfgA st0 w0))
     (snd (mainIteration envRefused cfgA (fst (mainIteration envRefused cfgA st0 w0))
            (snd (mainIteration envRefused cfgA st0 w0)))) =
     [Fetch acctA 1699398801000000000 (Inr [tx1, tx2]),
      Post ''tx-1'' (bankTX cfgA tx1) (Some errRequest)]"
  by (simp add: run_defs loop_defs)

lemma run_old:
  "newCalls w0 (snd (snd (syncTransactions envSame cfg30 stOld w0))) =
     [Fetch acctA 1697408000000000000 (Inr [tx1]),
      Post ''tx-1'' (bankTX cfg30 tx1) (Some errRequest)]"
  "fst (syncTransactions envSame cfg30 stOld w0) = Some errRequest"
  "ProcessedTxIDs (fst (snd (syncTransactions envSame cfg30 stOld w0))) ''tx-1'' = None"
  by (simp_all add: run_defs)

lemma run_same_calls:
  "newCalls w0 (snd (snd (syncTransactions envSame cfgAB st0 w0))) =
     [Fetch acctA 1699395200000000000 (Inr [tx1]),
      Post ''tx-1'' (bankTX cfgAB tx1) (Some errRequest)]"
  by (simp add: run_defs)


lemma run_seen_clock:
  "clock (snd (mainIteration envOK cfgA stSeen w0)) = 1700003602000000000"
  by (simp add: run_defs loop_defs)

lemma run_quiet:
  "fst (syncTransactions envQuiet cfgA stOld wSaved) = None"
  "fst (saveState envQuiet (fst (snd (syncTransactions envQuiet cfgA stOld wSaved)))
          (snd (snd (syncTransactions envQuiet cfgA stOld wSaved))))
     = Some (Err ''error writing state file: no space left on device'')"
  "ProcessedTxIDs (fst (mainIteration envQuiet cfgA stOld wSaved)) ''tx-1'' = None"
  "stateFile (snd (mainIteration envQuiet cfgA stOld wSaved)) = Snapshot (ProcessedTxIDs stOld)"
  by (simp_all add: run_defs loop_defs)

section \<open>The claims\<close>

subsection \<open>Cycle abort\<close>

text \<open>
  C1, at its own input: two transactions not in the ledger and a destination that would
  accept the first and refuse the second. The request for the first is not built, so the
  cycle is aborted at the first: nothing is sent, neither identifier is in the state in
  memory or in the state file, the second transaction is not attempted, and the next
  cycle attempts the first again and no more.
\<close>

theorem cycle_abort_run:
  "postOutcome envRefused w0 (bankTX cfgA tx1) = None
   \<and> postOutcome envRefused w0 (bankTX cfgA tx2) = Some (Err ''422'')
   \<and> newCalls w0 (snd (mainIteration envRefused cfgA st0 w0)) =
       [Fetch acctA 1699395200000000000 (Inr [tx1, tx2]),
        Post ''tx-1'' (bankTX cfgA tx1) (Some errRequest)]
   \<and> sent (snd (mainIteration envRefused cfgA st0 w0)) = []
   \<and> ProcessedTxIDs (fst (mainIteration envRefused cfgA st0 w0)) ''tx-1'' = None
   \<and> ProcessedTxIDs (fst (mainIteration envRefused cfgA st0 w0)) ''tx-2'' = None
   \<and> stateFile (snd (mainIteration envRefused cfgA st0 w0)) = Absent
   \<and> newCalls (snd (mainIteration envRefused cfgA st0 w0))
       (snd (mainIteration envRefused cfgA (fst (mainIteration envRefused cfgA st0 w0))
              (snd (mainIteration envRefused cfgA st0 w0)))) =
       [Fetch acctA 1699398801000000000 (Inr [tx1, tx2]),
        Post ''tx-1'' (bankTX cfgA tx1) (Some errRequest)]"
  by (simp add: run_refused_first run_refused_second)
    (simp add: envRefused_def envOK_def tx1_def tx2_def)

subsection \<open>At least once\<close>

text \<open>
  C2, at a transaction not in the ledger and a destination that accepts every post. Its
  post cannot succeed: the call returns the error of the request that is not built, no
  POST is sent, the cycle returns that error and the ledger does not hold the
  identifier; and no cycle ever sends a POST or adds an identifier to the ledger.
\<close>

theorem at_least_once_run:
  "postOutcome envOK w0 (bankTX cfgA tx1) = None
   \<and> ProcessedTxIDs st0 ''tx-1'' = None
   \<and> fst (syncTransactions envOK cfgA st0 w0) = Some errRequest
   \<and> newCalls w0 (snd (snd (syncTransactions envOK cfgA st0 w0))) =
       [Fetch acctA 1699395200000000000 (Inr [tx1, tx2]),
        Post ''tx-1'' (bankTX cfgA tx1) (Some errRequest)]
   \<and> sent (snd (snd (syncTransactions envOK cfgA st0 w0))) = []
   \<and> ProcessedTxIDs (fst (snd (syncTransactions envOK cfgA st0 w0))) ''tx-1'' = None
   \<and> sent (snd (snd (syncTransactions e config st w))) = sent w
   \<and> dom (ProcessedTxIDs (fst (snd (syncTransactions e config st w)))) \<subseteq> dom (ProcessedTxIDs st)"
proof -
  obtain r st' w' where c: "syncTransactions e config st w = (r, st', w')"
    by (cases "syncTransactions e config st w") auto
  have "sent w' = sent w" using c by (rule syncTransactions_state(2))
  moreover have "dom (ProcessedTxIDs st') \<subseteq> dom (ProcessedTxIDs st)"
    unfolding syncTransactions_state(1)[OF c]
    using prune_dom[of "AddDate (clock w) (- 7)" "ProcessedTxIDs st"] by simp
  ultimately show ?thesis using c
    by (simp add: run_new) (simp add: envOK_def st0_def)
qed

subsection \<open>Idempotence\<close>

text \<open>
  C3 as stated fails. The ledger holds the identifier of the one fetched transaction, first
  seen eight days before the cycle, and the lookback is thirty days: the cycle prunes the
  entry and then attempts to post the transaction, which ends the cycle with an error.
\<close>

theorem idempotence_counterexample:
  "tx_ID ` set [tx1] \<subseteq> dom (ProcessedTxIDs stOld)
   \<and> newCalls w0 (snd (snd (syncTransactions envSame cfg30 stOld w0))) =
       [Fetch acctA 1697408000000000000 (Inr [tx1]),
        Post ''tx-1'' (bankTX cfg30 tx1) (Some errRequest)]
   \<and> fst (syncTransactions envSame cfg30 stOld w0) = Some errRequest
   \<and> ProcessedTxIDs (fst (snd (syncTransactions envSame cfg30 stOld w0))) ''tx-1'' = None"
  by (simp add: run_old) (simp add: tx1_def stOld_def)

text \<open>
  C3, as the code has it. When every transaction the fetches of a cycle return has its
  identifier in the ledger with a timestamp not before the cutoff of the cycle's pruning
  (seven days before its start), the cycle returns no error, makes no attempt to post,
  and leaves the pruned ledger as it is, the entries of those transactions included.
\<close>

theorem idempotence:
  assumes "syncTransactions e config st w = (r, st', w')"
    and "\<forall>a s txs tx. Fetch a s (Inr txs) \<in> set (newCalls w w') \<and> tx \<in> set txs \<longrightarrow>
           (\<exists>t. ProcessedTxIDs st (tx_ID tx) = Some t \<and> \<not> Before t (AddDate (clock w) (- 7)))"
  shows "r = None
       \<and> (\<forall>x b out. Post x b out \<notin> set (newCalls w w'))
       \<and> ProcessedTxIDs st' = prune (AddDate (clock w) (- 7)) (ProcessedTxIDs st)
       \<and> (\<forall>a s txs tx. Fetch a s (Inr txs) \<in> set (newCalls w w') \<and> tx \<in> set txs \<longrightarrow>
            ProcessedTxIDs st' (tx_ID tx) = ProcessedTxIDs st (tx_ID tx))"
proof -
  let ?c = "AddDate (clock w) (- 7)"
  let ?st1 = "st\<lparr>ProcessedTxIDs := prune ?c (ProcessedTxIDs st)\<rparr>"
  let ?new = "newCalls w w'"
  note inv = syncTransactions_inv[OF assms(1)]
  have known: "\<And>a s txs tx. Fetch a s (Inr txs) \<in> set ?new \<Longrightarrow> tx \<in> set txs \<Longrightarrow>
      prune ?c (ProcessedTxIDs st) (tx_ID tx) = ProcessedTxIDs st (tx_ID tx)
      \<and> tx_ID tx \<in> dom (prune ?c (ProcessedTxIDs st))"
  proof -
    fix a s txs tx
    assume "Fetch a s (Inr txs) \<in> set ?new" "tx \<in> set txs"
    with assms(2) obtain t where t: "ProcessedTxIDs st (tx_ID tx) = Some t" "\<not> Before t ?c"
      by blast
    then have "prune ?c (ProcessedTxIDs st) (tx_ID tx) = Some t" by (rule prune_keeps)
    with t(1) show "prune ?c (ProcessedTxIDs st) (tx_ID tx) = ProcessedTxIDs st (tx_ID tx)
      \<and> tx_ID tx \<in> dom (prune ?c (ProcessedTxIDs st))" by auto
  qed
  have noPost: "\<forall>x b out. Post x b out \<notin> set ?new"
  proof (intro allI notI)
    fix x b out
    assume p: "Post x b out \<in> set ?new"
    with inv(4) obtain a s txs tx where
      f: "Fetch a s (Inr txs) \<in> set ?new" "tx \<in> set txs" "x = tx_ID tx"
      unfolding provenance_def by blast
    from known[OF f(1,2)] f(3) have "x \<in> dom (ProcessedTxIDs ?st1)" by simp
    moreover from inv(3) p have "x \<notin> dom (ProcessedTxIDs ?st1)"
      unfolding cycleInv_def by blast
    ultimately show False by simp
  qed
  have rNone: "r = None"
  proof (cases r)
    case None
    then show ?thesis .
  next
    case (Some err)
    with inv(3) obtain x b where "Post x b (Some err) \<in> set ?new"
      unfolding cycleInv_def by blast
    with noPost show ?thesis by blast
  qed
  have dom': "dom (ProcessedTxIDs st') = dom (ProcessedTxIDs ?st1)"
    using inv(3) noPost unfolding cycleInv_def by auto
  have same: "\<And>x. x \<in> dom (ProcessedTxIDs ?st1) \<Longrightarrow> ProcessedTxIDs st' x = ProcessedTxIDs ?st1 x"
    using inv(3) unfolding cycleInv_def by blast
  have eq: "ProcessedTxIDs st' = prune ?c (ProcessedTxIDs st)"
  proof
    fix x
    show "ProcessedTxIDs st' x = prune ?c (ProcessedTxIDs st) x"
    proof (cases "x \<in> dom (ProcessedTxIDs ?st1)")
      case True
      then show ?thesis using same by simp
    next
      case False
      with dom' have "x \<notin> dom (ProcessedTxIDs st')" by simp
      with False show ?thesis by (simp add: domIff)
    qed
  qed
  have noop: "\<forall>a s txs tx. Fetch a s (Inr txs) \<in> set ?new \<and> tx \<in> set txs \<longrightarrow>
            ProcessedTxIDs st' (tx_ID tx) = ProcessedTxIDs st (tx_ID tx)"
  proof (intro allI impI)
    fix a s txs tx
    assume "Fetch a s (Inr txs) \<in> set ?new \<and> tx \<in> set txs"
    then have "prune ?c (ProcessedTxIDs st) (tx_ID tx) = ProcessedTxIDs st (tx_ID tx)"
      using known by blast
    then show "ProcessedTxIDs st' (tx_ID tx) = ProcessedTxIDs st (tx_ID tx)"
      by (simp add: eq)
  qed
  from rNone noPost eq noop show ?thesis by blast
qed

theorem idempotence_witness:
  "fst (syncTransactions envOK cfgA stSeen w0) = None
   \<and> postsFor ''tx-1'' (newCalls w0 (snd (snd (syncTransactions envOK cfgA stSeen w0)))) = []
   \<and> postsFor ''tx-2'' (newCalls w0 (snd (snd (syncTransactions envOK cfgA stSeen w0)))) = []
   \<and> ProcessedTxIDs (fst (snd (syncTransactions envOK cfgA stSeen w0))) ''tx-1''
       = Some 1699996400000000000"
proof -
  have h1: "syncTransactions envOK cfgA stSeen w0 =
      (fst (syncTransactions envOK cfgA stSeen w0), fst (snd (syncTransactions envOK cfgA stSeen w0)),
       snd (snd (syncTransactions envOK cfgA stSeen w0)))"
    by simp
  have h2: "\<forall>a s txs tx.
      Fetch a s (Inr txs) \<in> set (newCalls w0 (snd (snd (syncTransactions envOK cfgA stSeen w0))))
        \<and> tx \<in> set txs \<longrightarrow>
      (\<exists>t. ProcessedTxIDs stSeen (tx_ID tx) = Some t \<and> \<not> Before t (AddDate (clock w0) (- 7)))"
    unfolding run_seen_calls
    by (auto simp: stSeen_def tx1_def tx2_def w0_def Before_def AddDate_def wrap64_def)
  have f: "Fetch acctA 1699395200000000000 (Inr [tx1, tx2])
      \<in> set (newCalls w0 (snd (snd (syncTransactions envOK cfgA stSeen w0)))) \<and> tx1 \<in> set [tx1, tx2]"
    by (simp add: run_seen_calls)
  have i: "tx_ID tx1 = ''tx-1''" "ProcessedTxIDs stSeen ''tx-1'' = Some 1699996400000000000"
    by (simp_all add: tx1_def stSeen_def)
  from idempotence [OF h1 h2]
  have c: "fst (syncTransactions envOK cfgA stSeen w0) = None"
      "\<forall>x b out. Post x b out \<notin> set (newCalls w0 (snd (snd (syncTransactions envOK cfgA stSeen w0))))"
      "\<forall>a s txs tx.
         Fetch a s (Inr txs) \<in> set (newCalls w0 (snd (snd (syncTransactions envOK cfgA stSeen w0))))
           \<and> tx \<in> set txs \<longrightarrow>
         ProcessedTxIDs (fst (snd (syncTransactions envOK cfgA stSeen w0))) (tx_ID tx)
           = ProcessedTxIDs stSeen (tx_ID tx)"
    by blast+
  from c(3) f have "ProcessedTxIDs (fst (snd (syncTransactions envOK cfgA stSeen w0))) (tx_ID tx1)
           = ProcessedTxIDs stSeen (tx_ID tx1)"
    by blast
  with c(1,2) i show ?thesis
    by (simp add: postsFor_empty_iff)
qed

subsection \<open>Pruning\<close>

text \<open>
  C4. Pruning removes exactly the entries first seen strictly before the cutoff, seven
  days before now: such an entry is absent afterwards, an entry at or after the cutoff is
  kept with its timestamp, nothing is added, whatever the order in which the loop visits
  the map; and a cycle over no account does nothing else to the state. The cutoff is
  now less seven times 24 hours whenever the seconds from the year 1 to that instant are
  a signed 64-bit number, as they are for every reading of a clock.
\<close>

theorem prune_removes_exactly_the_old:
  assumes "set ids = dom m"
  shows "(\<forall>txid firstSeenAt. m txid = Some firstSeenAt \<and> firstSeenAt < AddDate now (- 7)
            \<longrightarrow> pruneLoop ids (AddDate now (- 7)) m txid = None)
       \<and> (\<forall>txid firstSeenAt. m txid = Some firstSeenAt \<and> AddDate now (- 7) \<le> firstSeenAt
            \<longrightarrow> pruneLoop ids (AddDate now (- 7)) m txid = Some firstSeenAt)
       \<and> (\<forall>txid. m txid = None \<longrightarrow> pruneLoop ids (AddDate now (- 7)) m txid = None)
       \<and> (mercuryAccounts config = [] \<longrightarrow> ProcessedTxIDs state = m \<longrightarrow> clock w = now \<longrightarrow>
            syncTransactions e config state w =
              (None, state\<lparr>ProcessedTxIDs := pruneLoop ids (AddDate now (- 7)) m\<rparr>,
               slog Debug ''Sync completed'' [(''transactions'', ANat 0)] w))
       \<and> (- 9223372036854775808 \<le> now div 1000000000 + 62135596800 - 7 * 86400
            \<and> now div 1000000000 + 62135596800 - 7 * 86400 < 9223372036854775808 \<longrightarrow>
            AddDate now (- 7) = now - 7 * (24 * Hour))"
proof -
  have eq: "pruneLoop ids (AddDate now (- 7)) m = prune (AddDate now (- 7)) m"
    using assms by (intro pruneLoop_prune) simp
  have cut: "- 9223372036854775808 \<le> now div 1000000000 + 62135596800 - 7 * 86400
            \<and> now div 1000000000 + 62135596800 - 7 * 86400 < 9223372036854775808 \<longrightarrow>
            AddDate now (- 7) = now - 7 * (24 * Hour)"
    using AddDate_exact[of now "- 7"] by simp
  show ?thesis
    unfolding eq using cut
    by (auto simp: prune_def Before_def syncTransactions_no_accounts)
qed

theorem prune_removes_exactly_the_old_witness:
  "set [''tx-1'', ''tx-2''] = dom [''tx-1'' \<mapsto> 0, ''tx-2'' \<mapsto> 2 * (24 * Hour)]
   \<and> AddDate (8 * (24 * Hour)) (- 7) = 24 * Hour
   \<and> pruneLoop [''tx-1'', ''tx-2''] (AddDate (8 * (24 * Hour)) (- 7))
        [''tx-1'' \<mapsto> 0, ''tx-2'' \<mapsto> 2 * (24 * Hour)] ''tx-1'' = None
   \<and> pruneLoop [''tx-1'', ''tx-2''] (AddDate (8 * (24 * Hour)) (- 7))
        [''tx-1'' \<mapsto> 0, ''tx-2'' \<mapsto> 2 * (24 * Hour)] ''tx-2'' = Some (2 * (24 * Hour))
   \<and> pruneLoop [''tx-1'', ''tx-2''] (AddDate (8 * (24 * Hour)) (- 7))
        [''tx-1'' \<mapsto> 0, ''tx-2'' \<mapsto> 2 * (24 * Hour)] ''tx-3'' = None"
proof -
  have h: "set [''tx-1'', ''tx-2''] = dom [''tx-1'' \<mapsto> 0, ''tx-2'' \<mapsto> 2 * (24 * Hour)]"
    by auto
  have r: "- 9223372036854775808 \<le> (8 * (24 * Hour)) div 1000000000 + 62135596800 - 7 * 86400
      \<and> (8 * (24 * Hour)) div 1000000000 + 62135596800 - 7 * 86400 < 9223372036854775808"
    by (simp add: Hour_def)
  note p = prune_removes_exactly_the_old [OF h, of "8 * (24 * Hour)"]
  from p r have c: "AddDate (8 * (24 * Hour)) (- 7) = 8 * (24 * Hour) - 7 * (24 * Hour)" by blast
  have old: "[''tx-1'' \<mapsto> 0, ''tx-2'' \<mapsto> 2 * (24 * Hour)] ''tx-1'' = Some 0
      \<and> (0::int) < AddDate (8 * (24 * Hour)) (- 7)"
    unfolding c by (simp add: Hour_def)
  have new: "[''tx-1'' \<mapsto> 0, ''tx-2'' \<mapsto> 2 * (24 * Hour)] ''tx-2'' = Some (2 * (24 * Hour))
      \<and> AddDate (8 * (24 * Hour)) (- 7) \<le> 2 * (24 * Hour)"
    unfolding c by (simp add: Hour_def)
  have none: "[''tx-1'' \<mapsto> 0, ''tx-2'' \<mapsto> 2 * (24 * Hour)] ''tx-3'' = None"
    by simp
  have c': "AddDate (8 * (24 * Hour)) (- 7) = 24 * Hour" unfolding c by simp
  from p old new none h c' show ?thesis by blast
qed

subsection \<open>Sign mapping\<close>

text \<open>
  C5, at a transaction of 125.50. The body is built as the claim says, a CREDIT of 125.50
  dated by the day with the bank integration identifier, but it is not sent: for every
  transaction the call returns the error of the request that is not built, and no POST
  leaves the process.
\<close>

theorem sign_mapping_run:
  "bankTX cfgA tx1 =
     \<lparr>Amount = 251 / 2, Date = ''2024-03-05'', Description = ''invoice 17'',
      BankIntegrationID = ''bank-1'', BaseType = ''CREDIT''\<rparr>
   \<and> fst (createInvoiceNinjaTransaction envOK cfgA tx1 w0) = Some errRequest
   \<and> sent (snd (createInvoiceNinjaTransaction envOK cfgA tx1 w0)) = []
   \<and> fst (createInvoiceNinjaTransaction e config tx w) =
       Some (Err (''error creating request: POST '' @ InvoiceNinjaURL config
                    @ ''/api/v1/bank_transactions: cannot handle type main.InvoiceNinjaBankTX''))
   \<and> sent (snd (createInvoiceNinjaTransaction e config tx w)) = sent w"
proof -
  have d: "appendInt 2024 4 = ''2024''" "appendInt 3 2 = ''03''" "appendInt 5 2 = ''05''"
    by (simp_all add: appendInt_def digit_def)
  have b: "bankTX cfgA tx1 =
     \<lparr>Amount = 251 / 2, Date = ''2024-03-05'', Description = ''invoice 17'',
      BankIntegrationID = ''bank-1'', BaseType = ''CREDIT''\<rparr>"
    by (simp add: bankTX_def Format_2006_01_02_def d tx1_def noon_def cfgA_def)
  have c: "fst (createInvoiceNinjaTransaction envOK cfgA tx1 w0) = Some errRequest"
    "sent (snd (createInvoiceNinjaTransaction envOK cfgA tx1 w0)) = []"
    by (simp_all add: create_fails errRequest_def cfgA_def w0_def)
  from b c show ?thesis by (simp add: create_fails)
qed

subsection \<open>The scheduler\<close>

text \<open>
  C6 as stated fails. The interval is one hour, every fetched transaction is in the ledger,
  and the fetch and the write of the state file take a second each: the next cycle starts
  3602 seconds after this one started.
\<close>

theorem cadence_counterexample:
  "clock (snd (mainIteration envOK cfgA stSeen w0)) \<noteq> clock w0 + Duration_mul (SyncIntervalHours cfgA) Hour
   \<and> clock w0 = 1700000000000000000
   \<and> Duration_mul (SyncIntervalHours cfgA) Hour = 3600000000000
   \<and> clock (snd (mainIteration envOK cfgA stSeen w0)) = 1700003602000000000"
  by (simp add: run_seen_clock) (simp add: w0_def cfgA_def Duration_mul_def Hour_def)

text \<open>
  C6, as the code has it. After a cycle, failed or not, the loop reads the clock and
  sleeps until that reading plus the interval: the next cycle starts one interval after
  the end of this one (at once when the interval is not positive), so two starts are
  the interval and the length of the cycle apart. The interval is the configured number
  of hours, exactly so up to 2562047 hours either way. An error of the cycle is in the
  log, and the loop goes on from what the iteration left.
\<close>

theorem cadence:
  "clock (snd (mainIteration e config st w)) =
     (if Duration_mul (SyncIntervalHours config) Hour \<le> 0 then clock (snd (runCycle e config st w))
      else clock (snd (runCycle e config st w)) + Duration_mul (SyncIntervalHours config) Hour)
   \<and> (- 2562047 \<le> SyncIntervalHours config \<and> SyncIntervalHours config \<le> 2562047 \<longrightarrow>
        Duration_mul (SyncIntervalHours config) Hour = SyncIntervalHours config * Hour)
   \<and> (\<forall>err. fst (syncTransactions e config st w) = Some err \<longrightarrow>
        Log Error ''Error in sync'' [(''error'', AErr err)]
          \<in> set (newLogs w (snd (mainIteration e config st w))))
   \<and> mainLoop e config (Suc n) st w =
       mainLoop e config n (fst (mainIteration e config st w)) (snd (mainIteration e config st w))"
proof -
  have logged: "\<forall>err. fst (syncTransactions e config st w) = Some err \<longrightarrow>
        Log Error ''Error in sync'' [(''error'', AErr err)]
          \<in> set (newLogs w (snd (mainIteration e config st w)))"
  proof (intro allI impI)
    fix err assume f: "fst (syncTransactions e config st w) = Some err"
    obtain st1 w1 where c: "syncTransactions e config st w = (Some err, st1, w1)"
      using f by (cases "syncTransactions e config st w") auto
    from syncTransactions_logs_prefix[OF c] obtain nl where nl: "logs w1 = logs w @ nl" by auto
    have "logs (snd (runCycle e config st w)) =
        logs w @ nl @ [Log Error ''Error in sync'' [(''error'', AErr err)]]"
      using c nl by (simp add: runCycle_def)
    then have "newLogs w (snd (mainIteration e config st w)) =
        nl @ [Log Error ''Error in sync'' [(''error'', AErr err)],
              Log Debug ''Waiting for next sync''
                [(''next_sync'', ATime (clock (snd (runCycle e config st w))
                    + Duration_mul (SyncIntervalHours config) Hour))]]"
      by (simp add: newLogs_def mainIteration_fields)
    then show "Log Error ''Error in sync'' [(''error'', AErr err)]
          \<in> set (newLogs w (snd (mainIteration e config st w)))"
      by simp
  qed
  have loop: "mainLoop e config (Suc n) st w =
       mainLoop e config n (fst (mainIteration e config st w)) (snd (mainIteration e config st w))"
    by (simp split: prod.splits)
  from mainIteration_fields(5)[of e config st w] Duration_mul_exact logged loop
  show ?thesis by blast
qed

theorem cadence_witness:
  "clock (snd (mainIteration envOK cfgA st0 w0)) = 1700003601000000000
   \<and> clock (snd (runCycle envOK cfgA st0 w0)) = 1700000001000000000
   \<and> Log Error ''Error in sync'' [(''error'', AErr errRequest)]
       \<in> set (newLogs w0 (snd (mainIteration envOK cfgA st0 w0)))"
proof -
  have h: "- 2562047 \<le> SyncIntervalHours cfgA \<and> SyncIntervalHours cfgA \<le> 2562047"
    "SyncIntervalHours cfgA * Hour = 3600000000000"
    by (simp_all add: cfgA_def Hour_def)
  from cadence [of envOK cfgA st0 w0] h run_new(1,5) show ?thesis by auto
qed

subsection \<open>Persist failure\<close>

text \<open>
  C7 as stated fails. The state in memory and the state file hold one entry, eight days
  old; no account has a transaction, and the write of the state file fails, leaving the
  file as it was. The cycle prunes the entry: after the failed save the state in memory,
  which is what the next cycle gets, is without it, and the state file still holds it.
\<close>

theorem persist_failure_counterexample:
  "ProcessedTxIDs stOld ''tx-1'' = Some 1699308800000000000
   \<and> stateFile wSaved = Snapshot (ProcessedTxIDs stOld)
   \<and> fst (syncTransactions envQuiet cfgA stOld wSaved) = None
   \<and> fst (saveState envQuiet (fst (snd (syncTransactions envQuiet cfgA stOld wSaved)))
          (snd (snd (syncTransactions envQuiet cfgA stOld wSaved))))
       = Some (Err ''error writing state file: no space left on device'')
   \<and> ProcessedTxIDs (fst (mainIteration envQuiet cfgA stOld wSaved)) ''tx-1'' = None
   \<and> stateFile (snd (mainIteration envQuiet cfgA stOld wSaved)) = Snapshot (ProcessedTxIDs stOld)"
  by (simp add: run_quiet) (simp add: stOld_def wSaved_def)

text \<open>
  C7, as the code has it. When the cycle returns no error and saving the state fails, the
  failure is in the log and the state in memory keeps what the cycle did to it: the next
  iteration of the loop gets the state the cycle left, not what the state file holds, and
  the state file is as the failed write left it. In that state an entry not before the
  cutoff of the pruning is as it was, and an entry before the cutoff is gone unless a
  post of the cycle recorded it anew.
\<close>

theorem persist_failure:
  assumes "syncTransactions e config st w = (None, st1, w1)"
    and "saveState e st1 w1 = (Some err, wS)"
  shows "fst (mainIteration e config st w) = st1
       \<and> Log Error ''Error saving state'' [(''error'', AErr err)]
           \<in> set (newLogs w (snd (mainIteration e config st w)))
       \<and> stateFile (snd (mainIteration e config st w)) = stateFile wS
       \<and> (\<forall>x t. ProcessedTxIDs st x = Some t \<and> \<not> Before t (AddDate (clock w) (- 7)) \<longrightarrow>
            ProcessedTxIDs st1 x = Some t)
       \<and> (\<forall>x t. ProcessedTxIDs st x = Some t \<and> Before t (AddDate (clock w) (- 7))
              \<and> (\<forall>b. Post x b None \<notin> set (newCalls w w1)) \<longrightarrow>
            ProcessedTxIDs st1 x = None)
       \<and> mainLoop e config (Suc n) st w =
           mainLoop e config n st1 (snd (mainIteration e config st w))"
proof -
  let ?wA = "snd (mainIteration e config st w)"
  let ?le = "Log Error ''Error saving state'' [(''error'', AErr err)]"
  let ?c = "AddDate (clock w) (- 7)"
  let ?st0 = "st\<lparr>ProcessedTxIDs := prune ?c (ProcessedTxIDs st)\<rparr>"
  note inv = syncTransactions_inv[OF assms(1)]
  have rc: "runCycle e config st w = (st1, slog Error ''Error saving state'' [(''error'', AErr err)] wS)"
    using assms(1,2) by (rule runCycle_save_failed)
  have mem: "fst (mainIteration e config st w) = st1"
    using rc by (simp add: mainIteration_fields)
  have disk: "stateFile ?wA = stateFile wS"
    using rc by (simp add: mainIteration_fields)
  from syncTransactions_logs_prefix[OF assms(1)] obtain nl where nl: "logs w1 = logs w @ nl"
    by auto
  have "logs wS = logs w @ nl" using saveState_logs(1)[OF assms(2)] nl by simp
  then have "newLogs w ?wA = nl @ [?le,
      Log Debug ''Waiting for next sync''
        [(''next_sync'', ATime (clock (snd (runCycle e config st w))
            + Duration_mul (SyncIntervalHours config) Hour))]]"
    using rc by (simp add: newLogs_def mainIteration_fields)
  then have logged: "?le \<in> set (newLogs w ?wA)" by simp
  have dom1: "dom (ProcessedTxIDs st1) =
      dom (ProcessedTxIDs ?st0) \<union> {x. \<exists>b. Post x b None \<in> set (newCalls w w1)}"
    using inv(3) unfolding cycleInv_def by blast
  have same: "\<And>x. x \<in> dom (ProcessedTxIDs ?st0) \<Longrightarrow> ProcessedTxIDs st1 x = ProcessedTxIDs ?st0 x"
    using inv(3) unfolding cycleInv_def by blast
  have kept: "\<forall>x t. ProcessedTxIDs st x = Some t \<and> \<not> Before t ?c \<longrightarrow> ProcessedTxIDs st1 x = Some t"
  proof (intro allI impI)
    fix x t assume "ProcessedTxIDs st x = Some t \<and> \<not> Before t ?c"
    then have p: "prune ?c (ProcessedTxIDs st) x = Some t" by (simp add: prune_keeps)
    then have "x \<in> dom (ProcessedTxIDs ?st0)" by auto
    from same[OF this] p show "ProcessedTxIDs st1 x = Some t" by simp
  qed
  have gone: "\<forall>x t. ProcessedTxIDs st x = Some t \<and> Before t ?c
              \<and> (\<forall>b. Post x b None \<notin> set (newCalls w w1)) \<longrightarrow> ProcessedTxIDs st1 x = None"
  proof (intro allI impI)
    fix x t assume a: "ProcessedTxIDs st x = Some t \<and> Before t ?c
              \<and> (\<forall>b. Post x b None \<notin> set (newCalls w w1))"
    then have "prune ?c (ProcessedTxIDs st) x = None" by (simp add: prune_def)
    then have "x \<notin> dom (ProcessedTxIDs ?st0)" by (simp add: domIff)
    with a have "x \<notin> dom (ProcessedTxIDs st1)" unfolding dom1 by blast
    then show "ProcessedTxIDs st1 x = None" by (simp add: domIff)
  qed
  have loop: "mainLoop e config (Suc n) st w = mainLoop e config n st1 ?wA"
    using mem by (cases "mainIteration e config st w") simp
  from mem logged disk kept gone loop show ?thesis by simp
qed

theorem persist_failure_witness:
  "Log Error ''Error saving state''
       [(''error'', AErr (Err ''error writing state file: no space left on device''))]
     \<in> set (newLogs wSaved (snd (mainIteration envQuiet cfgA stOld wSaved)))
   \<and> ProcessedTxIDs (fst (mainIteration envQuiet cfgA stOld wSaved)) ''tx-1'' = None
   \<and> stateFile (snd (mainIteration envQuiet cfgA stOld wSaved)) = Snapshot (ProcessedTxIDs stOld)"
proof -
  let ?X = "syncTransactions envQuiet cfgA stOld wSaved"
  let ?S = "saveState envQuiet (fst (snd ?X)) (snd (snd ?X))"
  let ?I = "mainIteration envQuiet cfgA stOld wSaved"
  have h1: "?X = (None, fst (snd ?X), snd (snd ?X))"
    using run_quiet(1) by (cases ?X) simp
  have h2: "?S = (Some (Err ''error writing state file: no space left on device''), snd ?S)"
    using run_quiet(2) by (cases ?S) simp
  have old: "ProcessedTxIDs stOld ''tx-1'' = Some 1699308800000000000
      \<and> Before 1699308800000000000 (AddDate (clock wSaved) (- 7))"
    by (simp add: stOld_def wSaved_def w0_def Before_def AddDate_def wrap64_def)
  have np: "\<forall>b. Post ''tx-1'' b None \<notin> set (newCalls wSaved (snd (snd ?X)))"
    by (simp add: run_defs)
  note pf = persist_failure [OF h1 h2]
  from pf have c1: "Log Error ''Error saving state''
       [(''error'', AErr (Err ''error writing state file: no space left on device''))]
     \<in> set (newLogs wSaved (snd ?I))" by blast
  from pf have c2: "fst ?I = fst (snd ?X)" by blast
  from pf have c3: "\<forall>x t. ProcessedTxIDs stOld x = Some t \<and> Before t (AddDate (clock wSaved) (- 7))
              \<and> (\<forall>b. Post x b None \<notin> set (newCalls wSaved (snd (snd ?X)))) \<longrightarrow>
            ProcessedTxIDs (fst (snd ?X)) x = None" by blast
  from c3 old np have c4: "ProcessedTxIDs (fst (snd ?X)) ''tx-1'' = None" by blast
  from c1 c2 c4 run_quiet(4) show ?thesis by simp
qed

subsection \<open>Per-account isolation\<close>



subsection \<open>Retention and lookback\<close>

text \<open>
  C9 as stated fails. A configuration file with no lookback key loads with a lookback of
  seven days, where the cutoff of the pruning equals the start of the lookback; and a
  lookback of thirty days loads as well, with the start of the lookback before the cutoff.
\<close>

theorem retention_exceeds_lookback_counterexample:
  "loadConfig acceptURI (Decoded jKeys) ''/data'' ''https://ninja.example'' = Inr cfgLoaded
   \<and> SyncStartDaysAgo cfgLoaded = 7
   \<and> AddDate (clock w0) (- 7) = Format_RFC3339 (AddDate (clock w0) (- SyncStartDaysAgo cfgLoaded))
   \<and> loadConfig acceptURI (Decoded (jKeys\<lparr>j_syncStartDaysAgo := Some 30\<rparr>)) ''/data''
        ''https://ninja.example'' = Inr (cfgLoaded\<lparr>SyncStartDaysAgo := 30\<rparr>)
   \<and> Format_RFC3339 (AddDate (clock w0) (- SyncStartDaysAgo (cfgLoaded\<lparr>SyncStartDaysAgo := 30\<rparr>)))
        < AddDate (clock w0) (- 7)"
  by (simp add: loadConfig_def acceptURI_def jKeys_def cfgLoaded_def override_def filepath_Join_def
      w0_def AddDate_def wrap64_def Format_RFC3339_def)

text \<open>
  C9, as the code has it. The cutoff of the pruning is seven days before the start of the
  cycle whatever the configuration: an entry not before it is kept, an entry before it is
  gone after the cycle unless a post of the cycle recorded it anew. The lookback of a
  fetch is the configured number of days, seven when the configuration file has no such
  key. At one reading of the clock, between 1970 and 2096, and for a lookback of no more
  than 100000000000000 days either way, the cutoff lies before the start of the lookback
  exactly when that number is below seven.
\<close>

theorem retention_and_lookback:
  assumes "syncTransactions e config st w = (r, st', w')"
  shows "(\<forall>x t. ProcessedTxIDs st x = Some t \<and> \<not> Before t (AddDate (clock w) (- 7)) \<longrightarrow>
            ProcessedTxIDs st' x = Some t)
       \<and> (\<forall>x t. ProcessedTxIDs st x = Some t \<and> Before t (AddDate (clock w) (- 7))
              \<and> (\<forall>b. Post x b None \<notin> set (newCalls w w')) \<longrightarrow>
            ProcessedTxIDs st' x = None)
       \<and> calls (snd (fetchMercuryTransactions e config acct w)) =
           calls w @ [Fetch acct (Format_RFC3339 (AddDate (clock w) (- SyncStartDaysAgo config)))
                        (fst (fetchMercuryTransactions e config acct w))]
       \<and> (0 \<le> now \<and> now < 4000000000000000000
            \<and> - 100000000000000 \<le> SyncStartDaysAgo config
            \<and> SyncStartDaysAgo config \<le> 100000000000000 \<longrightarrow>
            (AddDate now (- 7) < Format_RFC3339 (AddDate now (- SyncStartDaysAgo config))
              \<longleftrightarrow> SyncStartDaysAgo config < 7))
       \<and> (\<forall>P j dir url c. loadConfig P (Decoded j) dir url = Inr c \<longrightarrow>
            SyncStartDaysAgo c = override 7 (j_syncStartDaysAgo j))"
proof -
  let ?c = "AddDate (clock w) (- 7)"
  let ?st1 = "st\<lparr>ProcessedTxIDs := prune ?c (ProcessedTxIDs st)\<rparr>"
  note inv = syncTransactions_inv[OF assms]
  have dom': "dom (ProcessedTxIDs st') =
      dom (ProcessedTxIDs ?st1) \<union> {x. \<exists>b. Post x b None \<in> set (newCalls w w')}"
    using inv(3) unfolding cycleInv_def by blast
  have same: "\<And>x. x \<in> dom (ProcessedTxIDs ?st1) \<Longrightarrow> ProcessedTxIDs st' x = ProcessedTxIDs ?st1 x"
    using inv(3) unfolding cycleInv_def by blast
  have kept: "\<forall>x t. ProcessedTxIDs st x = Some t \<and> \<not> Before t ?c \<longrightarrow> ProcessedTxIDs st' x = Some t"
  proof (intro allI impI)
    fix x t assume "ProcessedTxIDs st x = Some t \<and> \<not> Before t ?c"
    then have p: "prune ?c (ProcessedTxIDs st) x = Some t" by (simp add: prune_keeps)
    then have "x \<in> dom (ProcessedTxIDs ?st1)" by auto
    from same[OF this] p show "ProcessedTxIDs st' x = Some t" by simp
  qed
  have gone: "\<forall>x t. ProcessedTxIDs st x = Some t \<and> Before t ?c
              \<and> (\<forall>b. Post x b None \<notin> set (newCalls w w')) \<longrightarrow> ProcessedTxIDs st' x = None"
  proof (intro allI impI)
    fix x t assume a: "ProcessedTxIDs st x = Some t \<and> Before t ?c
              \<and> (\<forall>b. Post x b None \<notin> set (newCalls w w'))"
    then have "prune ?c (ProcessedTxIDs st) x = None" by (simp add: prune_def)
    then have "x \<notin> dom (ProcessedTxIDs ?st1)" by (simp add: domIff)
    with a have "x \<notin> dom (ProcessedTxIDs st')" unfolding dom' by blast
    then show "ProcessedTxIDs st' x = None" by (simp add: domIff)
  qed
  have start: "calls (snd (fetchMercuryTransactions e config acct w)) =
           calls w @ [Fetch acct (Format_RFC3339 (AddDate (clock w) (- SyncStartDaysAgo config)))
                        (fst (fetchMercuryTransactions e config acct w))]"
    by (simp add: fetchMercuryTransactions_def Let_def)
  have days: "\<forall>P j dir url c. loadConfig P (Decoded j) dir url = Inr c \<longrightarrow>
            SyncStartDaysAgo c = override 7 (j_syncStartDaysAgo j)"
    using loadConfig_days by blast
  have cmp: "0 \<le> now \<and> now < 4000000000000000000
            \<and> - 100000000000000 \<le> SyncStartDaysAgo config
            \<and> SyncStartDaysAgo config \<le> 100000000000000 \<longrightarrow>
            (AddDate now (- 7) < Format_RFC3339 (AddDate now (- SyncStartDaysAgo config))
              \<longleftrightarrow> SyncStartDaysAgo config < 7)"
    using cutoff_before_start_iff[of now "SyncStartDaysAgo config"] by blast
  from kept gone start days cmp show ?thesis by blast
qed

theorem retention_and_lookback_witness:
  "ProcessedTxIDs (fst (snd (syncTransactions envOK cfgA stSeen w0))) ''tx-1''
     = Some 1699996400000000000
   \<and> \<not> AddDate (clock w0) (- 7) < Format_RFC3339 (AddDate (clock w0) (- SyncStartDaysAgo cfgA))
   \<and> SyncStartDaysAgo cfgLoaded = 7"
proof -
  let ?X = "syncTransactions envOK cfgA stSeen w0"
  have h1: "?X = (fst ?X, fst (snd ?X), snd (snd ?X))" by simp
  have k: "ProcessedTxIDs stSeen ''tx-1'' = Some 1699996400000000000
      \<and> \<not> Before 1699996400000000000 (AddDate (clock w0) (- 7))"
    by (simp add: stSeen_def w0_def Before_def AddDate_def wrap64_def)
  have d: "\<not> SyncStartDaysAgo cfgA < 7" "override 7 (j_syncStartDaysAgo jKeys) = (7::int)"
    by (simp_all add: cfgA_def jKeys_def override_def)
  have b: "0 \<le> clock w0 \<and> clock w0 < 4000000000000000000
            \<and> - 100000000000000 \<le> SyncStartDaysAgo cfgA
            \<and> SyncStartDaysAgo cfgA \<le> 100000000000000"
    by (simp add: w0_def cfgA_def)
  from retention_and_lookback [OF h1, where now = "clock w0"]
  have c: "\<forall>x t. ProcessedTxIDs stSeen x = Some t \<and> \<not> Before t (AddDate (clock w0) (- 7)) \<longrightarrow>
            ProcessedTxIDs (fst (snd ?X)) x = Some t"
    "0 \<le> clock w0 \<and> clock w0 < 4000000000000000000
            \<and> - 100000000000000 \<le> SyncStartDaysAgo cfgA
            \<and> SyncStartDaysAgo cfgA \<le> 100000000000000 \<longrightarrow>
     (AddDate (clock w0) (- 7) < Format_RFC3339 (AddDate (clock w0) (- SyncStartDaysAgo cfgA))
            \<longleftrightarrow> SyncStartDaysAgo cfgA < 7)"
    "\<forall>P j dir url c. loadConfig P (Decoded j) dir url = Inr c \<longrightarrow>
            SyncStartDaysAgo c = override 7 (j_syncStartDaysAgo j)"
    by blast+
  from c(1) k have "ProcessedTxIDs (fst (snd ?X)) ''tx-1'' = Some 1699996400000000000" by blast
  moreover from c(2) b d(1) have
    "\<not> AddDate (clock w0) (- 7) < Format_RFC3339 (AddDate (clock w0) (- SyncStartDaysAgo cfgA))"
    by blast
  moreover from c(3)[rule_format, OF load_keys] d(2) have "SyncStartDaysAgo cfgLoaded = 7" by simp
  ultimately show ?thesis by simp
qed

subsection \<open>At most one post per identifier and cycle\<close>

text \<open>
  C10. Within one cycle at most one call of \<^verbatim>\<open>createInvoiceNinjaTransaction\<close> is made for any
  transaction identifier, however often the identifier occurs in the fetched lists.
\<close>

theorem at_most_one_post_per_id:
  "length (postsFor x (newCalls w (snd (snd (syncTransactions e config st w))))) \<le> 1"
proof -
  obtain r st' w' where c: "syncTransactions e config st w = (r, st', w')"
    by (cases "syncTransactions e config st w") auto
  from syncTransactions_inv(3)[OF c] have "length (postsFor x (newCalls w w')) \<le> 1"
    unfolding cycleInv_def by blast
  with c show ?thesis by simp
qed

theorem at_most_one_post_per_id_witness:
  "length (postsFor ''tx-1'' (newCalls w0 (snd (snd (syncTransactions envSame cfgAB st0 w0))))) \<le> 1
   \<and> newCalls w0 (snd (snd (syncTransactions envSame cfgAB st0 w0))) =
       [Fetch acctA 1699395200000000000 (Inr [tx1]),
        Post ''tx-1'' (bankTX cfgAB tx1) (Some errRequest)]"
  using at_most_one_post_per_id [of "''tx-1''" w0 envSame cfgAB st0]
  by (simp add: run_same_calls)

end
